theory Spec2Isabelle
  imports Main "HOL-Library.AList"
begin

section \<open>The preview panel of the page editor (preview-panel.js)\<close>

text \<open>
  A shallow embedding of \<^verbatim>\<open>initPreview\<close> in
  \<^verbatim>\<open>client/src/entrypoints/admin/preview-panel.js\<close>. The closure variables of
  \<^verbatim>\<open>initPreview\<close> and the parts of the page it reads and writes are the fields
  of one record; every function of the source takes that record and returns it updated.
  Promises are split where they suspend: the synchronous part of a function keeps the
  source's name, and what runs when the promise settles is a function of its own. The
  browser (timer, user, network, frame loading) is a list of events.
\<close>

subsection \<open>Browser values\<close>

text \<open>
  \<^verbatim>\<open>iframe.contentWindow\<close> with the two offsets the source reads, and the
  \<^verbatim>\<open>{ top, left }\<close> options object it passes to \<^verbatim>\<open>scroll\<close> (its fields
  are \<open>opt_top\<close> and \<open>opt_left\<close> here, \<open>top\<close> being a constant of HOL). The
  offsets are only copied, never computed with, so the JavaScript numbers are integers
  here.
\<close>

record window =
  scrollY :: int
  scrollX :: int

record scroll_options =
  opt_top :: int
  opt_left :: int

text \<open>
  An iframe element: its identity, its content attributes in order (name and value, as
  \<^verbatim>\<open>iframe.attributes\<close> lists them, \<^verbatim>\<open>src\<close> and \<^verbatim>\<open>style\<close>
  included), and its content window, which is \<^verbatim>\<open>null\<close> for an element that is not
  in a document.
\<close>

record iframe_el =
  node :: nat
  attributes :: "(string \<times> string) list"
  contentWindow :: "window option"

definition getAttribute :: "iframe_el \<Rightarrow> string \<Rightarrow> string option" where
  "getAttribute el name = map_of (attributes el) name"

text \<open>\<^verbatim>\<open>setAttribute\<close> changes the value of an attribute the element has and
  appends one it has not.\<close>

definition setAttribute :: "string \<Rightarrow> string \<Rightarrow> iframe_el \<Rightarrow> iframe_el" where
  "setAttribute name v el = el\<lparr>attributes := AList.update name v (attributes el)\<rparr>"

text \<open>The \<^verbatim>\<open>src\<close> property reflects the attribute and is the empty string without
  one. Attribute values are kept resolved (absolute).\<close>

definition iframe_src :: "iframe_el \<Rightarrow> string" where
  "iframe_src el = (case getAttribute el ''src'' of None \<Rightarrow> [] | Some v \<Rightarrow> v)"

text \<open>
  A parsed \<^verbatim>\<open>URL\<close>: what precedes the query, the query as the ordered pairs of
  \<^verbatim>\<open>url.searchParams\<close>, and the fragment.
\<close>

record url =
  origin_path :: string
  searchParams :: "(string \<times> string) list"
  hash :: string

text \<open>\<^verbatim>\<open>searchParams.set(name, value)\<close>: the first pair of that name takes the value
  and the later ones are removed; without one, the pair is appended.\<close>

fun searchParams_set :: "string \<Rightarrow> string \<Rightarrow> (string \<times> string) list \<Rightarrow> (string \<times> string) list" where
  "searchParams_set name v [] = [(name, v)]"
| "searchParams_set name v (p # ps) =
     (if fst p = name then (name, v) # filter (\<lambda>q. fst q \<noteq> name) ps
      else p # searchParams_set name v ps)"

definition searchParams_delete :: "string \<Rightarrow> (string \<times> string) list \<Rightarrow> (string \<times> string) list" where
  "searchParams_delete name ps = filter (\<lambda>q. fst q \<noteq> name) ps"

definition searchParams_get :: "(string \<times> string) list \<Rightarrow> string \<Rightarrow> string option" where
  "searchParams_get ps name = map_of ps name"

text \<open>
  The \<^verbatim>\<open>URL\<close> class belongs to the browser, not to this repository, so parsing and
  serialising are parameters of the model: \<^verbatim>\<open>new URL(s)\<close> is \<open>URL_new api s\<close>,
  \<open>None\<close> where the constructor throws a TypeError (the empty string, for one), and
  \<^verbatim>\<open>url.toString()\<close> is \<open>URL_toString api url\<close>.
\<close>

record url_api =
  URL_new :: "string \<Rightarrow> url option"
  URL_toString :: "url \<Rightarrow> string"

text \<open>
  \<^verbatim>\<open>new FormData(form)\<close>: the entries of the form in order. The value of an entry is
  a string, or a File for a file input.
\<close>

datatype entry_value = Text string | File string

type_synonym form_data = "(string \<times> entry_value) list"

text \<open>
  \<^verbatim>\<open>new URLSearchParams(formData)\<close>: the constructor reads the entries as pairs of
  strings, so a File is converted by \<^verbatim>\<open>String(file)\<close>, which is
  \<^verbatim>\<open>[object File]\<close> for every file.
\<close>

fun USVString :: "entry_value \<Rightarrow> string" where
  "USVString (Text s) = s"
| "USVString (File f) = ''[object File]''"

definition URLSearchParams :: "form_data \<Rightarrow> (string \<times> string) list" where
  "URLSearchParams d = map (\<lambda>(name, v). (name, USVString v)) d"

text \<open>
  \<^verbatim>\<open>toString()\<close> of the search parameters, the
  \<^verbatim>\<open>application/x-www-form-urlencoded\<close> serialiser: in a name and in a value the
  letters, the digits and \<^verbatim>\<open>*-._\<close> stand for themselves, a space becomes
  \<^verbatim>\<open>+\<close>, and any other byte becomes \<^verbatim>\<open>%\<close> and its two hexadecimal digits;
  name and value are joined by \<^verbatim>\<open>=\<close>, the pairs by \<^verbatim>\<open>&\<close>. A string is the
  list of its bytes.
\<close>

definition unreserved :: "char \<Rightarrow> bool" where
  "unreserved c =
     (c \<in> set ''ABCDEFGHIJKLMNOPQRSTUVWXYZabcdefghijklmnopqrstuvwxyz0123456789*-._'')"

definition hex_digit :: "nat \<Rightarrow> char" where
  "hex_digit n = ''0123456789ABCDEF'' ! n"

definition percent_encode_byte :: "char \<Rightarrow> string" where
  "percent_encode_byte c =
     (if unreserved c then [c]
      else if c = CHR '' '' then ''+''
      else [CHR ''%'', hex_digit (of_char c div 16), hex_digit (of_char c mod 16)])"

definition percent_encode :: "string \<Rightarrow> string" where
  "percent_encode s = concat (map percent_encode_byte s)"

fun urlencoded :: "(string \<times> string) list \<Rightarrow> string" where
  "urlencoded [] = []"
| "urlencoded (p # ps) =
     percent_encode (fst p) @ ''='' @ percent_encode (snd p)
     @ (if ps = [] then [] else ''&'' @ urlencoded ps)"

definition URLSearchParams_toString :: "form_data \<Rightarrow> string" where
  "URLSearchParams_toString d = urlencoded (URLSearchParams d)"

subsection \<open>Requests, effects and the state of the panel\<close>

text \<open>
  What is chained on the promise that \<^verbatim>\<open>setPreviewData()\<close> returns. The interval
  callback and the last line of \<^verbatim>\<open>initPreview\<close> drop it (\<open>Unhandled\<close>);
  \<^verbatim>\<open>handlePreview\<close> attaches its \<^verbatim>\<open>catch\<close>, and
  \<^verbatim>\<open>handlePreviewInNewTab\<close> a \<^verbatim>\<open>then\<close> for the window it opened after that
  (\<open>HandlePreview (Some w)\<close>; \<open>HandlePreview None\<close> for the mode change, which drops the
  result).
\<close>

datatype handler = Unhandled | HandlePreview "nat option"

record request =
  rid :: nat
  chain :: handler

text \<open>What the rendering endpoint answers: the decoded body
  \<^verbatim>\<open>{ is_valid, is_available }\<close>, or a rejection of \<^verbatim>\<open>fetch\<close> or of
  \<^verbatim>\<open>response.json()\<close>.\<close>

datatype outcome = Json bool bool | Rejected

datatype 'a settled = Fulfilled 'a | Thrown

text \<open>What the panel does to the world outside it, in order.\<close>

datatype effect =
    Fetch nat string form_data
  | Alert string
  | WindowOpen string string
  | TabFocus nat
  | TabNavigate nat string
  | TabClose nat
  | WindowFocus

record panel =
  previewUrl :: string
  autoUpdate :: bool
  has_errors :: bool
  unavailable :: bool
  spinner_hidden :: bool
  newTabHref :: string
  form :: form_data
  iframeLastScroll :: scroll_options
  iframe :: iframe_el
  hasPendingUpdate :: bool
  oldData :: form_data
  fetches :: "request list"
  loading :: "iframe_el list"
  fresh :: nat
  effects :: "effect list"

text \<open>
  \<open>has_errors\<close>, \<open>unavailable\<close>: the classes \<^verbatim>\<open>preview-panel--has-errors\<close> and
  \<^verbatim>\<open>preview-panel--unavailable\<close> of the panel; \<open>spinner_hidden\<close>: the class
  \<^verbatim>\<open>w-hidden\<close> of the spinner; \<open>newTabHref\<close>: \<^verbatim>\<open>newTabButton.href\<close>;
  \<open>form\<close>: the current entries of the edit form; \<open>fetches\<close>: the requests in flight;
  \<open>loading\<close>: the new iframes in the document with \<^verbatim>\<open>handleLoad\<close> attached;
  \<open>fresh\<close>: the next unused identity; \<open>effects\<close>: the trace.
\<close>

subsection \<open>Preview data handling\<close>

definition updateIframeLastScroll :: "panel \<Rightarrow> panel" where
  "updateIframeLastScroll s =
     (case contentWindow (iframe s) of
        None \<Rightarrow> s
      | Some w \<Rightarrow> s\<lparr>iframeLastScroll := \<lparr>opt_top = scrollY w, opt_left = scrollX w\<rparr>\<rparr>)"

text \<open>The new iframe of \<^verbatim>\<open>reloadIframe\<close>: the four style properties make its
  \<^verbatim>\<open>style\<close> attribute, then \<^verbatim>\<open>src\<close> is set; once inserted it has a content
  window, scrolled to the origin.\<close>

definition hidden_style :: string where
  "hidden_style = ''width: 0px; height: 0px; opacity: 0; position: absolute;''"

definition reloadIframe :: "panel \<Rightarrow> panel" where
  "reloadIframe s =
     (let newIframe = \<lparr>node = fresh s,
                       attributes = [(''style'', hidden_style), (''src'', iframe_src (iframe s))],
                       contentWindow = Some \<lparr>scrollY = 0, scrollX = 0\<rparr>\<rparr>
      in s\<lparr>loading := loading s @ [newIframe], fresh := Suc (fresh s)\<rparr>)"

text \<open>
  \<^verbatim>\<open>handleLoad\<close>, the load listener of a new iframe. A frame whose load event fires
  is in the document, so it has the content window that \<^verbatim>\<open>scroll\<close> is called on.
  \<^verbatim>\<open>newIframe.style = null\<close> forwards to \<^verbatim>\<open>style.cssText\<close>: the declarations
  are emptied and the \<^verbatim>\<open>style\<close> attribute is set to their serialisation, the empty
  string.
\<close>

definition copyAttributes :: "iframe_el \<Rightarrow> iframe_el \<Rightarrow> iframe_el" where
  "copyAttributes old newIframe =
     fold (\<lambda>key el. if fst key = ''src'' then el else setAttribute (fst key) (snd key) el)
       (attributes old) newIframe"

definition scroll :: "scroll_options \<Rightarrow> iframe_el \<Rightarrow> iframe_el" where
  "scroll opts el = el\<lparr>contentWindow := Some \<lparr>scrollY = opt_top opts, scrollX = opt_left opts\<rparr>\<rparr>"

definition handleLoad :: "iframe_el \<Rightarrow> panel \<Rightarrow> panel" where
  "handleLoad newIframe s =
     (let copied = copyAttributes (iframe s) newIframe;
          scrolled = scroll (iframeLastScroll s) copied;
          shown = setAttribute ''style'' [] scrolled
      in s\<lparr>iframe := shown,
           spinner_hidden := True,
           hasPendingUpdate := False,
           loading := filter (\<lambda>el. node el \<noteq> node newIframe) (loading s)\<rparr>)"

text \<open>\<^verbatim>\<open>setPreviewData\<close> up to the point where \<^verbatim>\<open>fetch\<close> is called; \<open>h\<close> is
  what the caller chains on the promise.\<close>

definition setPreviewData :: "handler \<Rightarrow> panel \<Rightarrow> panel" where
  "setPreviewData h s =
     s\<lparr>hasPendingUpdate := True,
       spinner_hidden := False,
       fetches := fetches s @ [\<lparr>rid = fresh s, chain = h\<rparr>],
       fresh := Suc (fresh s),
       effects := effects s @ [Fetch (fresh s) (previewUrl s) (form s)]\<rparr>"

text \<open>The \<^verbatim>\<open>then\<close> and the \<^verbatim>\<open>catch\<close> of \<^verbatim>\<open>setPreviewData\<close>: how its
  promise settles, and the state it leaves.\<close>

fun setPreviewData_settled :: "outcome \<Rightarrow> panel \<Rightarrow> bool settled \<times> panel" where
  "setPreviewData_settled (Json is_valid is_available) s =
     (Fulfilled is_valid,
      reloadIframe (updateIframeLastScroll
        (s\<lparr>has_errors := \<not> is_valid, unavailable := \<not> is_available\<rparr>)))"
| "setPreviewData_settled Rejected s =
     (Thrown, s\<lparr>spinner_hidden := True, hasPendingUpdate := False\<rparr>)"

definition handlePreview :: "nat option \<Rightarrow> panel \<Rightarrow> panel" where
  "handlePreview k s = setPreviewData (HandlePreview k) s"

text \<open>The \<^verbatim>\<open>catch\<close> of \<^verbatim>\<open>handlePreview\<close>: its promise is always fulfilled, with
  the value of \<^verbatim>\<open>setPreviewData\<close> or, after the alert, with \<^verbatim>\<open>undefined\<close>
  (\<open>None\<close>). The text of the alert is the message before translation.\<close>

fun handlePreview_settled :: "bool settled \<times> panel \<Rightarrow> bool option \<times> panel" where
  "handlePreview_settled (Fulfilled is_valid, s) = (Some is_valid, s)"
| "handlePreview_settled (Thrown, s) =
     (None, s\<lparr>effects := effects s @ [Alert ''Error while sending preview data.'']\<rparr>)"

text \<open>\<^verbatim>\<open>handlePreviewInNewTab\<close>; \<open>opened\<close> is what \<^verbatim>\<open>window.open\<close> returns,
  \<open>None\<close> for \<^verbatim>\<open>null\<close> (then \<^verbatim>\<open>previewWindow.focus()\<close> throws).\<close>

definition handlePreviewInNewTab :: "nat option \<Rightarrow> panel \<Rightarrow> panel" where
  "handlePreviewInNewTab opened s =
     (let s1 = s\<lparr>effects := effects s @ [WindowOpen [] (previewUrl s)]\<rparr>
      in case opened of
           None \<Rightarrow> s1
         | Some previewWindow \<Rightarrow>
             handlePreview (Some previewWindow)
               (s1\<lparr>effects := effects s1 @ [TabFocus previewWindow]\<rparr>))"

text \<open>Its \<^verbatim>\<open>then\<close> callback; \<^verbatim>\<open>undefined\<close> and \<^verbatim>\<open>false\<close> are both falsy.
  Where \<^verbatim>\<open>new URL(newTabButton.href)\<close> throws, the callback ends there.\<close>

definition handlePreviewInNewTab_then :: "url_api \<Rightarrow> nat \<Rightarrow> bool option \<Rightarrow> panel \<Rightarrow> panel" where
  "handlePreviewInNewTab_then api previewWindow success s =
     (if success = Some True then
        (case URL_new api (newTabHref s) of
           None \<Rightarrow> s
         | Some u \<Rightarrow> s\<lparr>effects := effects s @ [TabNavigate previewWindow (URL_toString api u)]\<rparr>)
      else s\<lparr>effects := effects s @ [WindowFocus, TabClose previewWindow]\<rparr>)"

text \<open>A request settles: the callbacks chained on it run in order.\<close>

definition settle :: "url_api \<Rightarrow> handler \<Rightarrow> outcome \<Rightarrow> panel \<Rightarrow> panel" where
  "settle api h out s =
     (case h of
        Unhandled \<Rightarrow> snd (setPreviewData_settled out s)
      | HandlePreview k \<Rightarrow>
          (let r = handlePreview_settled (setPreviewData_settled out s)
           in case k of
                None \<Rightarrow> snd r
              | Some previewWindow \<Rightarrow> handlePreviewInNewTab_then api previewWindow (fst r) (snd r)))"

subsection \<open>Automatic update\<close>

definition hasChanges :: "panel \<Rightarrow> bool \<times> panel" where
  "hasChanges s =
     (let newData = form s;
          oldPayload = URLSearchParams_toString (oldData s);
          newPayload = URLSearchParams_toString newData
      in (oldPayload \<noteq> newPayload, s\<lparr>oldData := newData\<rparr>))"

text \<open>The callback of \<^verbatim>\<open>setInterval\<close>; \<^verbatim>\<open>||\<close> does not evaluate
  \<^verbatim>\<open>hasChanges()\<close> when an update is pending.\<close>

definition interval_callback :: "panel \<Rightarrow> panel" where
  "interval_callback s =
     (if hasPendingUpdate s then s
      else (let r = hasChanges s
            in if \<not> fst r then snd r else setPreviewData Unhandled (snd r)))"

subsection \<open>Preview mode handling\<close>

text \<open>Where \<^verbatim>\<open>new URL(iframe.src)\<close> throws, the handler ends before it has changed
  anything.\<close>

definition handlePreviewModeChange :: "url_api \<Rightarrow> string \<Rightarrow> panel \<Rightarrow> panel" where
  "handlePreviewModeChange api mode s =
     (case URL_new api (iframe_src (iframe s)) of
        None \<Rightarrow> s
      | Some u \<Rightarrow>
          (let url = u\<lparr>searchParams := searchParams_set ''mode'' mode (searchParams u)\<rparr>;
               s1 = updateIframeLastScroll s;
               s2 = s1\<lparr>iframe := setAttribute ''src'' (URL_toString api url) (iframe s1)\<rparr>;
               url' = url\<lparr>searchParams := searchParams_delete ''in_preview_panel'' (searchParams url)\<rparr>;
               s3 = s2\<lparr>newTabHref := URL_toString api url'\<rparr>
           in handlePreview None s3))"

subsection \<open>Initialisation and events\<close>

text \<open>
  \<^verbatim>\<open>initPreview\<close> for a page that has the panel: the argument gives the page as
  found (endpoint, auto-update flag, classes, link, form, iframe); the closure variables
  are initialised and the first \<^verbatim>\<open>setPreviewData()\<close> is sent. On a page without
  the panel \<^verbatim>\<open>initPreview\<close> returns at once and there is no state. The preview size
  handling is not part of the model.
\<close>

definition initPreview :: "panel \<Rightarrow> panel" where
  "initPreview page =
     setPreviewData Unhandled
       (page\<lparr>iframeLastScroll := \<lparr>opt_top = 0, opt_left = 0\<rparr>,
             hasPendingUpdate := False,
             oldData := form page,
             fetches := [],
             loading := [],
             fresh := Suc (node (iframe page)),
             effects := []\<rparr>)"

text \<open>
  What the browser can do next: the interval fires, the user edits the form or scrolls the
  preview, a request settles, a new iframe fires its load event, the user picks a preview
  mode or clicks the new-tab link. A response or a load for an identity that is not
  outstanding is no event of the page and changes nothing.
\<close>

datatype event =
    Tick
  | Input form_data
  | FrameScroll int int
  | Response nat outcome
  | Load nat
  | ModeChange string
  | NewTabClick "nat option"

fun step :: "url_api \<Rightarrow> event \<Rightarrow> panel \<Rightarrow> panel" where
  "step api Tick s = (if autoUpdate s then interval_callback s else s)"
| "step api (Input d) s = s\<lparr>form := d\<rparr>"
| "step api (FrameScroll y x) s =
     (case contentWindow (iframe s) of
        None \<Rightarrow> s
      | Some w \<Rightarrow> s\<lparr>iframe := (iframe s)\<lparr>contentWindow := Some \<lparr>scrollY = y, scrollX = x\<rparr>\<rparr>\<rparr>)"
| "step api (Response i out) s =
     (case find (\<lambda>r. rid r = i) (fetches s) of
        None \<Rightarrow> s
      | Some r \<Rightarrow> settle api (chain r) out (s\<lparr>fetches := filter (\<lambda>r. rid r \<noteq> i) (fetches s)\<rparr>))"
| "step api (Load i) s =
     (case find (\<lambda>el. node el = i) (loading s) of
        None \<Rightarrow> s
      | Some newIframe \<Rightarrow> handleLoad newIframe s)"
| "step api (ModeChange mode) s = handlePreviewModeChange api mode s"
| "step api (NewTabClick opened) s = handlePreviewInNewTab opened s"

fun run :: "url_api \<Rightarrow> event list \<Rightarrow> panel \<Rightarrow> panel" where
  "run api [] s = s"
| "run api (e # es) s = run api es (step api e s)"

subsection \<open>Kinds of events\<close>

text \<open>The events of the automatic path: everything but the two explicit user requests.\<close>

fun poll_path :: "event \<Rightarrow> bool" where
  "poll_path (ModeChange m) = False"
| "poll_path (NewTabClick w) = False"
| "poll_path e = True"

text \<open>At most one request or swap is under way, and the pending flag says whether one is.\<close>

definition single_flight :: "panel \<Rightarrow> bool" where
  "single_flight s =
     (length (fetches s) + length (loading s) \<le> 1
      \<and> hasPendingUpdate s = (fetches s \<noteq> [] \<or> loading s \<noteq> []))"

text \<open>The events that cannot clear the pending flag: all but a load and a rejection.\<close>

fun keeps_pending :: "event \<Rightarrow> bool" where
  "keeps_pending (Load i) = False"
| "keeps_pending (Response i Rejected) = False"
| "keeps_pending e = True"

text \<open>The events that do not call \<^verbatim>\<open>updateIframeLastScroll\<close>: all but a mode change
  and a decoded response.\<close>

fun no_capture :: "event \<Rightarrow> bool" where
  "no_capture (ModeChange m) = False"
| "no_capture (Response i (Json is_valid is_available)) = False"
| "no_capture e = True"

fun is_Alert :: "effect \<Rightarrow> bool" where
  "is_Alert (Alert m) = True"
| "is_Alert e = False"

fun text_entry :: "string \<times> entry_value \<Rightarrow> bool" where
  "text_entry (name, Text v) = True"
| "text_entry (name, File f) = False"

text \<open>What can follow an encoded name or value in a payload: nothing, or a separator.\<close>

definition at_separator :: "string \<Rightarrow> bool" where
  "at_separator x = (x = [] \<or> hd x = CHR ''='' \<or> hd x = CHR ''&'')"

text \<open>
  What holds of every state that the page can reach: the requests in flight and the iframes
  awaiting their load have identities of their own, older than \<open>fresh\<close>; the displayed
  iframe is not among those awaiting their load; and no element has two attributes of one
  name.
\<close>

definition coherent :: "panel \<Rightarrow> bool" where
  "coherent s =
     (distinct (map rid (fetches s))
      \<and> list_all (\<lambda>r. rid r < fresh s) (fetches s)
      \<and> distinct (map node (loading s))
      \<and> list_all (\<lambda>el. node el < fresh s \<and> node el \<noteq> node (iframe s)
                         \<and> distinct (map fst (attributes el))) (loading s)
      \<and> node (iframe s) < fresh s
      \<and> distinct (map fst (attributes (iframe s))))"

subsection \<open>An example page\<close>

text \<open>A browser for the examples: it knows the URLs of the example page, and serialises
  a URL with \<^verbatim>\<open>?\<close>, \<^verbatim>\<open>=\<close> and \<^verbatim>\<open>&\<close>.\<close>

fun query_string :: "(string \<times> string) list \<Rightarrow> string" where
  "query_string [] = []"
| "query_string [p] = fst p @ ''='' @ snd p"
| "query_string (p # q # ps) = fst p @ ''='' @ snd p @ ''&'' @ query_string (q # ps)"

definition example_toString :: "url \<Rightarrow> string" where
  "example_toString u =
     origin_path u
     @ (if searchParams u = [] then [] else ''?'' @ query_string (searchParams u))
     @ hash u"

definition example_urls :: "url list" where
  "example_urls =
     [\<lparr>origin_path = ''https://cms.example/preview/'',
       searchParams = [(''in_preview_panel'', ''true''), (''mode'', ''desktop'')], hash = []\<rparr>,
      \<lparr>origin_path = ''https://cms.example/preview/'',
       searchParams = [(''in_preview_panel'', ''true''), (''mode'', ''mobile'')], hash = []\<rparr>,
      \<lparr>origin_path = ''https://cms.example/preview/'',
       searchParams = [(''mode'', ''desktop'')], hash = []\<rparr>,
      \<lparr>origin_path = ''https://cms.example/preview/'',
       searchParams = [(''mode'', ''mobile'')], hash = []\<rparr>]"

definition example_api :: url_api where
  "example_api =
     \<lparr>URL_new = map_of (map (\<lambda>u. (example_toString u, u)) example_urls),
      URL_toString = example_toString\<rparr>"

definition example_page :: panel where
  "example_page =
     \<lparr>previewUrl = ''/admin/pages/3/edit/preview/'',
      autoUpdate = True,
      has_errors = False,
      unavailable = False,
      spinner_hidden = True,
      newTabHref = ''https://cms.example/preview/?mode=desktop'',
      form = [(''title'', Text ''Hello''), (''upload'', File ''a.png'')],
      iframeLastScroll = \<lparr>opt_top = 0, opt_left = 0\<rparr>,
      iframe = \<lparr>node = 0,
                attributes = [(''src'', ''https://cms.example/preview/?in_preview_panel=true&mode=desktop''),
                              (''class'', ''preview-panel__iframe''),
                              (''title'', ''Preview'')],
                contentWindow = Some \<lparr>scrollY = 0, scrollX = 0\<rparr>\<rparr>,
      hasPendingUpdate = False,
      oldData = [],
      fetches = [],
      loading = [],
      fresh = 0,
      effects = []\<rparr>"

text \<open>An edit of the title, and a run of the automatic path: the edit arrives while the
  first request is pending, the response and the load of the new iframe follow, and the
  next tick sends the edit.\<close>

definition example_edit :: form_data where
  "example_edit = [(''title'', Text ''Hi''), (''upload'', File ''a.png'')]"

definition poll_trace :: "event list" where
  "poll_trace =
     [Input example_edit, Tick, Response 1 (Json True True), Tick, Load 2, Tick, Tick]"

text \<open>Ticks and an edit while the first request is pending.\<close>

definition pending_trace :: "event list" where
  "pending_trace = [Tick, Input example_edit, Tick]"

text \<open>The first response and the load of its iframe, then an edit and the tick that sends
  it as request 3.\<close>

definition failing_poll_trace :: "event list" where
  "failing_poll_trace = [Response 1 (Json True True), Load 2, Input example_edit, Tick]"

text \<open>The example page with an inline style on its iframe.\<close>

definition styled_page :: panel where
  "styled_page = example_page\<lparr>iframe := setAttribute ''style'' ''border: 0px;'' (iframe example_page)\<rparr>"

text \<open>The form of the example page after another file is chosen for the upload.\<close>

definition replaced_file :: form_data where
  "replaced_file = [(''title'', Text ''Hello''), (''upload'', File ''b.png'')]"

text \<open>The preview is scrolled to 40, the first response arrives, the preview is scrolled
  on to 100 and the mode is changed before the new iframe has loaded.\<close>

definition overwritten_scroll_trace :: "event list" where
  "overwritten_scroll_trace =
     [FrameScroll 40 0, Response 1 (Json True True), FrameScroll 100 0, ModeChange ''mobile'', Load 2]"

text \<open>The same without the mode change: the preview is scrolled on, the form is edited
  and a tick passes while the new iframe loads.\<close>

definition kept_scroll_trace :: "event list" where
  "kept_scroll_trace = [Tick, FrameScroll 90 5, Input example_edit]"

section \<open>Properties\<close>

subsection \<open>The payload determines the pairs\<close>

lemma hex_digit_inj: "m < 16 \<Longrightarrow> n < 16 \<Longrightarrow> hex_digit m = hex_digit n \<Longrightarrow> m = n"
proof -
  have d: "distinct ''0123456789ABCDEF''" by simp
  have l: "length ''0123456789ABCDEF'' = 16" by simp
  show "m < 16 \<Longrightarrow> n < 16 \<Longrightarrow> hex_digit m = hex_digit n \<Longrightarrow> m = n"
    unfolding hex_digit_def using nth_eq_iff_index_eq [OF d, of m n] l by simp
qed

lemma byte_split: "(of_char c :: nat) div 16 = of_char d div 16 \<Longrightarrow>
   (of_char c :: nat) mod 16 = of_char d mod 16 \<Longrightarrow> c = d"
proof -
  assume a: "(of_char c :: nat) div 16 = of_char d div 16" "(of_char c :: nat) mod 16 = of_char d mod 16"
  have "(of_char c :: nat) = of_char d"
    using a by (metis div_mult_mod_eq)
  then show "c = d" by simp
qed

lemma of_char_less: "(of_char c :: nat) div 16 < 16"
proof -
  have "(of_char c :: nat) < 16 * 16" using nat_of_char_less_256 [of c] by simp
  then show ?thesis by (rule less_mult_imp_div_less)
qed

lemma not_unreserved [simp]:
  "\<not> unreserved CHR ''=''" "\<not> unreserved CHR ''&''" "\<not> unreserved CHR ''+''" "\<not> unreserved CHR ''%''"
  by (simp_all add: unreserved_def)

lemma hex_pair_inj:
  assumes "hex_digit (of_char c div 16) = hex_digit (of_char d div 16)"
    and "hex_digit (of_char c mod 16) = hex_digit (of_char d mod 16)"
  shows "c = d"
proof -
  have "(of_char c :: nat) div 16 = of_char d div 16"
    using assms(1) by (rule hex_digit_inj [OF of_char_less of_char_less])
  moreover have "(of_char c :: nat) mod 16 = of_char d mod 16"
    using assms(2) by (intro hex_digit_inj) simp_all
  ultimately show ?thesis by (rule byte_split)
qed

lemma percent_encode_byte_prefix:
  "percent_encode_byte c @ u = percent_encode_byte d @ v \<Longrightarrow> c = d \<and> u = v"
  by (auto simp: percent_encode_byte_def split: if_splits intro: hex_pair_inj)

lemma percent_encode_byte_hd:
  "\<exists>h t. percent_encode_byte c = h # t \<and> h \<noteq> CHR ''='' \<and> h \<noteq> CHR ''&''"
  by (auto simp: percent_encode_byte_def)

lemma percent_encode_inj:
  "percent_encode a @ x = percent_encode b @ y \<Longrightarrow> at_separator x \<Longrightarrow> at_separator y \<Longrightarrow> a = b \<and> x = y"
proof (induction a arbitrary: b)
  case Nil
  show ?case
  proof (cases b)
    case Nil
    with Nil.prems show ?thesis by (simp add: percent_encode_def)
  next
    case (Cons d b')
    obtain h t where "percent_encode_byte d = h # t" "h \<noteq> CHR ''=''" "h \<noteq> CHR ''&''"
      using percent_encode_byte_hd by blast
    with Nil.prems Cons show ?thesis by (auto simp: percent_encode_def at_separator_def)
  qed
next
  case (Cons c a)
  show ?case
  proof (cases b)
    case Nil
    obtain h t where "percent_encode_byte c = h # t" "h \<noteq> CHR ''=''" "h \<noteq> CHR ''&''"
      using percent_encode_byte_hd by blast
    with Cons.prems Nil show ?thesis by (auto simp: percent_encode_def at_separator_def)
  next
    case (Cons d b')
    with Cons.prems(1) have
      "percent_encode_byte c @ (percent_encode a @ x) = percent_encode_byte d @ (percent_encode b' @ y)"
      by (simp add: percent_encode_def)
    from percent_encode_byte_prefix [OF this]
    have cd: "c = d" and r: "percent_encode a @ x = percent_encode b' @ y" by simp_all
    from Cons.IH [OF r Cons.prems(2,3)] cd Cons show ?thesis by simp
  qed
qed

lemma urlencoded_inj: "urlencoded a = urlencoded b \<Longrightarrow> a = b"
proof (induction a arbitrary: b)
  case Nil
  then show ?case by (cases b) simp_all
next
  case (Cons p ps)
  show ?case
  proof (cases b)
    case Nil
    with Cons.prems show ?thesis by simp
  next
    case (Cons q qs)
    let ?R = "\<lambda>ps. if ps = [] then [] else ''&'' @ urlencoded ps"
    from Cons.prems Cons have
      e: "percent_encode (fst p) @ (''='' @ percent_encode (snd p) @ ?R ps)
        = percent_encode (fst q) @ (''='' @ percent_encode (snd q) @ ?R qs)"
      by simp
    have "at_separator (''='' @ percent_encode (snd p) @ ?R ps)" "at_separator (''='' @ percent_encode (snd q) @ ?R qs)"
      by (simp_all add: at_separator_def)
    from percent_encode_inj [OF e this]
    have n: "fst p = fst q" and e2: "percent_encode (snd p) @ ?R ps = percent_encode (snd q) @ ?R qs"
      by simp_all
    have "at_separator (?R ps)" "at_separator (?R qs)" by (simp_all add: at_separator_def)
    from percent_encode_inj [OF e2 this]
    have v: "snd p = snd q" and r: "?R ps = ?R qs" by simp_all
    have u: "urlencoded ps = urlencoded qs"
    proof (cases "ps = []"; cases "qs = []")
      assume "ps \<noteq> []" "qs \<noteq> []"
      with r show ?thesis by simp
    next
      assume "ps = []" "qs \<noteq> []" with r show ?thesis by simp
    next
      assume "ps \<noteq> []" "qs = []" with r show ?thesis by simp
    next
      assume "ps = []" "qs = []" then show ?thesis by simp
    qed
    from Cons.IH [OF u] n v Cons show ?thesis by (simp add: prod_eq_iff)
  qed
qed

lemma payload_eq_iff:
  "(URLSearchParams_toString a = URLSearchParams_toString b) = (URLSearchParams a = URLSearchParams b)"
  using urlencoded_inj by (auto simp: URLSearchParams_toString_def)

lemma text_entry_payload:
  "text_entry x \<Longrightarrow> text_entry y \<Longrightarrow>
     (case x of (name, v) \<Rightarrow> (name, USVString v)) = (case y of (name, v) \<Rightarrow> (name, USVString v)) \<Longrightarrow>
     x = y"
  by (erule text_entry.elims; erule text_entry.elims; simp)

lemma text_params_eqD:
  "list_all text_entry a \<Longrightarrow> list_all text_entry b \<Longrightarrow>
     URLSearchParams a = URLSearchParams b \<Longrightarrow> a = b"
proof (induction a arbitrary: b)
  case Nil
  then show ?case by (simp add: URLSearchParams_def)
next
  case (Cons x a)
  from Cons.prems(3) obtain y b' where b: "b = y # b'"
    by (cases b) (simp_all add: URLSearchParams_def)
  from Cons.prems b have hd: "text_entry x" "text_entry y"
    and tl: "list_all text_entry a" "list_all text_entry b'" by simp_all
  from Cons.prems(3) b
  have e: "(case x of (name, v) \<Rightarrow> (name, USVString v)) = (case y of (name, v) \<Rightarrow> (name, USVString v))"
    and r: "URLSearchParams a = URLSearchParams b'"
    by (simp_all add: URLSearchParams_def)
  from text_entry_payload [OF hd e] Cons.IH [OF tl r] b show ?case by simp
qed

lemma text_payload_eqD:
  assumes "list_all text_entry a" and "list_all text_entry b"
    and "URLSearchParams_toString a = URLSearchParams_toString b"
  shows "a = b"
proof -
  from assms(3) have "URLSearchParams a = URLSearchParams b"
    by (simp only: payload_eq_iff)
  with assms(1,2) show ?thesis by (rule text_params_eqD)
qed

subsection \<open>Evaluation, and the fields each function leaves alone\<close>

lemmas panel_defs =
  initPreview_def setPreviewData_def interval_callback_def hasChanges_def
  payload_eq_iff URLSearchParams_def settle_def handlePreview_def handlePreviewInNewTab_def
  handlePreviewInNewTab_then_def handlePreviewModeChange_def handleLoad_def copyAttributes_def
  setAttribute_def getAttribute_def iframe_src_def scroll_def reloadIframe_def
  updateIframeLastScroll_def hidden_style_def searchParams_delete_def searchParams_get_def
  example_page_def example_api_def example_urls_def example_toString_def example_edit_def
  styled_page_def replaced_file_def Let_def

lemma interval_callback_pending: "hasPendingUpdate s \<Longrightarrow> interval_callback s = s"
  by (simp add: interval_callback_def)

lemma settle_unchanged:
  "autoUpdate (settle api h out s) = autoUpdate s"
  "oldData (settle api h out s) = oldData s"
  "form (settle api h out s) = form s"
  "fetches (settle api h out s) = fetches s"
  by (cases out; simp add: settle_def handlePreviewInNewTab_then_def reloadIframe_def
        updateIframeLastScroll_def Let_def split: handler.splits option.splits)+

lemma settle_Json:
  "hasPendingUpdate (settle api h (Json is_valid is_available) s) = hasPendingUpdate s"
  "loading (settle api h (Json is_valid is_available) s)
     = loading s @ [\<lparr>node = fresh s,
                      attributes = [(''style'', hidden_style), (''src'', iframe_src (iframe s))],
                      contentWindow = Some \<lparr>scrollY = 0, scrollX = 0\<rparr>\<rparr>]"
  by (simp_all add: settle_def handlePreviewInNewTab_then_def reloadIframe_def
        updateIframeLastScroll_def Let_def split: handler.splits option.splits)

lemma settle_Rejected:
  "hasPendingUpdate (settle api h Rejected s) = False"
  "loading (settle api h Rejected s) = loading s"
  "iframeLastScroll (settle api h Rejected s) = iframeLastScroll s"
  by (simp_all add: settle_def handlePreviewInNewTab_then_def Let_def
        split: handler.splits option.splits)

lemma modeChange_unchanged:
  "autoUpdate (handlePreviewModeChange api m s) = autoUpdate s"
  "oldData (handlePreviewModeChange api m s) = oldData s"
  "form (handlePreviewModeChange api m s) = form s"
  by (simp_all add: handlePreviewModeChange_def handlePreview_def setPreviewData_def
        updateIframeLastScroll_def Let_def split: option.splits)

lemma newTab_unchanged:
  "autoUpdate (handlePreviewInNewTab w s) = autoUpdate s"
  "oldData (handlePreviewInNewTab w s) = oldData s"
  "form (handlePreviewInNewTab w s) = form s"
  "iframeLastScroll (handlePreviewInNewTab w s) = iframeLastScroll s"
  by (simp_all add: handlePreviewInNewTab_def handlePreview_def setPreviewData_def
        Let_def split: option.splits)

lemma autoUpdate_step: "autoUpdate (step api e s) = autoUpdate s"
  by (cases e)
     (simp_all add: interval_callback_def hasChanges_def setPreviewData_def Let_def
        settle_unchanged modeChange_unchanged newTab_unchanged handleLoad_def
        split: option.splits)

lemma autoUpdate_run: "autoUpdate (run api evs s) = autoUpdate s"
  by (induction evs arbitrary: s) (simp_all add: autoUpdate_step)

lemma oldData_step: "e \<noteq> Tick \<Longrightarrow> oldData (step api e s) = oldData s"
  by (cases e)
     (simp_all add: settle_unchanged modeChange_unchanged newTab_unchanged handleLoad_def Let_def
        split: option.splits)

lemma form_step: "e = Load i \<or> e = Response i out \<Longrightarrow> form (step api e s) = form s"
  by (auto simp: settle_unchanged handleLoad_def Let_def split: option.splits)

subsection \<open>One request at a time on the automatic path\<close>

lemma single_flight_cases:
  "single_flight s \<Longrightarrow>
     (fetches s = [] \<and> loading s = [] \<and> \<not> hasPendingUpdate s)
   \<or> (\<exists>r. fetches s = [r] \<and> loading s = [] \<and> hasPendingUpdate s)
   \<or> (\<exists>el. fetches s = [] \<and> loading s = [el] \<and> hasPendingUpdate s)"
  unfolding single_flight_def
  by (cases "fetches s"; cases "loading s") auto

lemma single_flight_init: "single_flight (initPreview page)"
  by (simp add: single_flight_def initPreview_def setPreviewData_def)

lemma single_flight_tick: "single_flight s \<Longrightarrow> single_flight (interval_callback s)"
  by (auto simp: single_flight_def interval_callback_def hasChanges_def setPreviewData_def Let_def)

lemma single_flight_response:
  assumes "single_flight s"
  shows "single_flight (step api (Response i out) s)"
proof (cases "find (\<lambda>r. rid r = i) (fetches s)")
  case None
  then show ?thesis using assms by simp
next
  case (Some r)
  then have "fetches s \<noteq> []" by auto
  with single_flight_cases [OF assms] obtain r' where f: "fetches s = [r']" and l: "loading s = []"
    and p: "hasPendingUpdate s" by auto
  from Some f have i: "rid r' = i" by (auto split: if_splits)
  show ?thesis
    using Some f l p i
    by (cases out) (simp_all add: single_flight_def settle_unchanged settle_Json settle_Rejected)
qed

lemma single_flight_load:
  assumes "single_flight s"
  shows "single_flight (step api (Load i) s)"
proof (cases "find (\<lambda>el. node el = i) (loading s)")
  case None
  then show ?thesis using assms by simp
next
  case (Some el)
  then have "loading s \<noteq> []" by auto
  with single_flight_cases [OF assms] obtain el' where f: "fetches s = []" and l: "loading s = [el']"
    by auto
  from Some l have i: "el' = el" "node el = i" by (auto split: if_splits)
  show ?thesis
    using Some f l i by (simp add: single_flight_def handleLoad_def Let_def)
qed

lemma single_flight_step:
  assumes "poll_path e" and "single_flight s"
  shows "single_flight (step api e s)"
proof (cases e)
  case Tick
  then show ?thesis using assms(2) by (simp add: single_flight_tick)
next
  case (Input d)
  then show ?thesis using assms(2) by (simp add: single_flight_def)
next
  case (FrameScroll y x)
  then show ?thesis using assms(2) by (simp add: single_flight_def split: option.splits)
next
  case (Response i out)
  then show ?thesis using assms(2) by (simp only: single_flight_response)
next
  case (Load i)
  then show ?thesis using assms(2) by (simp only: single_flight_load)
next
  case (ModeChange m)
  then show ?thesis using assms(1) by simp
next
  case (NewTabClick w)
  then show ?thesis using assms(1) by simp
qed

lemma single_flight_run:
  "list_all poll_path evs \<Longrightarrow> single_flight s \<Longrightarrow> single_flight (run api evs s)"
  by (induction evs arbitrary: s) (simp_all add: single_flight_step)

text \<open>
  C1. A tick that finds the pending flag set returns the state as it was, so it sends
  nothing. On the automatic path (any sequence of ticks, edits, scrolls, responses and
  loads after initialisation) at most one request or swap is under way at any time, the
  pending flag is set exactly while one is, and a tick that does send a request finds none
  under way: the earlier cycle has ended, by its load or by its failure.
\<close>

theorem poll_ticks_single_flight:
  assumes "list_all poll_path evs" and "t = run api evs (initPreview page)"
  shows "(hasPendingUpdate s \<longrightarrow> step api Tick s = s)
       \<and> length (fetches t) + length (loading t) \<le> 1
       \<and> hasPendingUpdate t = (fetches t \<noteq> [] \<or> loading t \<noteq> [])
       \<and> (fetches (step api Tick t) \<noteq> fetches t \<longrightarrow> fetches t = [] \<and> loading t = [])"
proof -
  have tick: "hasPendingUpdate x \<longrightarrow> step api Tick x = x" for x
    by (simp add: interval_callback_pending)
  have "single_flight t"
    unfolding assms(2) using assms(1) single_flight_init by (rule single_flight_run)
  then have one: "length (fetches t) + length (loading t) \<le> 1"
    and flag: "hasPendingUpdate t = (fetches t \<noteq> [] \<or> loading t \<noteq> [])"
    by (simp_all add: single_flight_def)
  have "fetches (step api Tick t) \<noteq> fetches t \<longrightarrow> \<not> hasPendingUpdate t"
    using tick [of t] by auto
  with flag have "fetches (step api Tick t) \<noteq> fetches t \<longrightarrow> fetches t = [] \<and> loading t = []"
    by blast
  with tick [of s] one flag show ?thesis by blast
qed

text \<open>The example run: the last tick but one has sent request 3, which is pending, and
  the last tick left the state alone.\<close>

theorem poll_ticks_single_flight_witness:
  "list_all poll_path poll_trace
   \<and> hasPendingUpdate (run example_api poll_trace (initPreview example_page))
   \<and> step example_api Tick (run example_api poll_trace (initPreview example_page))
       = run example_api poll_trace (initPreview example_page)
   \<and> fetches (run example_api poll_trace (initPreview example_page))
       = [\<lparr>rid = 3, chain = Unhandled\<rparr>]
   \<and> loading (run example_api poll_trace (initPreview example_page)) = []"
proof -
  have h: "list_all poll_path poll_trace"
    by (simp add: poll_trace_def)
  have p: "hasPendingUpdate (run example_api poll_trace (initPreview example_page))"
    by code_simp
  have f: "fetches (run example_api poll_trace (initPreview example_page))
             = [\<lparr>rid = 3, chain = Unhandled\<rparr>]"
    by code_simp
  from poll_ticks_single_flight [where api = example_api and page = example_page
      and s = "run example_api poll_trace (initPreview example_page)", OF h refl] p f
  show ?thesis using h by simp
qed

subsection \<open>The snapshot during a pending update\<close>

lemma keeps_pending_step:
  assumes "keeps_pending e" and "hasPendingUpdate s"
  shows "hasPendingUpdate (step api e s) \<and> oldData (step api e s) = oldData s"
proof (cases e)
  case Tick
  then show ?thesis using assms by (simp add: interval_callback_pending)
next
  case (Input d)
  then show ?thesis using assms by simp
next
  case (FrameScroll y x)
  then show ?thesis using assms by (simp split: option.splits)
next
  case (Response i out)
  with assms(1) obtain v a where "out = Json v a" by (cases out) auto
  then show ?thesis using Response assms(2)
    by (simp add: settle_Json settle_unchanged split: option.splits)
next
  case (Load i)
  then show ?thesis using assms by simp
next
  case (ModeChange m)
  then show ?thesis using assms
    by (simp add: modeChange_unchanged)
       (simp add: handlePreviewModeChange_def handlePreview_def setPreviewData_def Let_def
          split: option.splits)
next
  case (NewTabClick w)
  then show ?thesis using assms
    by (simp add: newTab_unchanged)
       (simp add: handlePreviewInNewTab_def handlePreview_def setPreviewData_def Let_def
          split: option.splits)
qed

lemma keeps_pending_run:
  "list_all keeps_pending evs \<Longrightarrow> hasPendingUpdate s \<Longrightarrow>
     hasPendingUpdate (run api evs s) \<and> oldData (run api evs s) = oldData s"
proof (induction evs arbitrary: s)
  case Nil
  then show ?case by simp
next
  case (Cons e evs)
  from Cons.prems have e: "keeps_pending e" and es: "list_all keeps_pending evs" by simp_all
  from keeps_pending_step [OF e Cons.prems(2)]
  have p: "hasPendingUpdate (step api e s)" and o: "oldData (step api e s) = oldData s" by simp_all
  from Cons.IH [OF es p] o show ?case by simp
qed

lemma tick_submits_iff:
  assumes "autoUpdate t" and "\<not> hasPendingUpdate t"
  shows "(fetches (step api Tick t) \<noteq> fetches t)
       = (URLSearchParams_toString (form t) \<noteq> URLSearchParams_toString (oldData t))"
  using assms by (auto simp: interval_callback_def hasChanges_def setPreviewData_def Let_def)

text \<open>
  C9, as the code has it. A tick that finds the pending flag set returns the state as it
  was: \<^verbatim>\<open>hasChanges\<close> is not called and the stored snapshot stays. Through any
  events that leave the flag set (ticks and edits among them) the snapshot is still the one
  from before, and so it is after the load or the rejection that clears the flag. The first
  tick after that compares the form as it is then with that snapshot, and sends a request
  exactly when their payloads differ. So a change made while the update was pending is
  reported then if it alters the payload against that snapshot, and only then; where the
  values of the form and of the snapshot are all strings, that is whenever the form differs
  from the snapshot.
\<close>

theorem pending_tick_keeps_snapshot:
  assumes "hasPendingUpdate s" and "autoUpdate s"
    and "list_all keeps_pending evs"
    and "c = Load i \<or> c = Response i Rejected"
    and "t = step api c (run api evs s)"
  shows "step api Tick s = s
       \<and> hasPendingUpdate (run api evs s)
       \<and> oldData (run api evs s) = oldData s
       \<and> oldData t = oldData s
       \<and> form t = form (run api evs s)
       \<and> (\<not> hasPendingUpdate t \<longrightarrow>
            (fetches (step api Tick t) \<noteq> fetches t)
            = (URLSearchParams_toString (form t) \<noteq> URLSearchParams_toString (oldData s)))
       \<and> (\<not> hasPendingUpdate t \<and> list_all text_entry (form t)
            \<and> list_all text_entry (oldData s) \<longrightarrow>
            (fetches (step api Tick t) \<noteq> fetches t) = (form t \<noteq> oldData s))"
proof -
  have tick: "step api Tick s = s"
    using assms(1) by (simp add: interval_callback_pending)
  have run: "hasPendingUpdate (run api evs s)" "oldData (run api evs s) = oldData s"
    using keeps_pending_run [OF assms(3) assms(1)] by simp_all
  have "c \<noteq> Tick" using assms(4) by auto
  then have old: "oldData t = oldData s"
    using run(2) assms(5) by (simp add: oldData_step)
  have frm: "form t = form (run api evs s)"
    using assms(4,5) form_step by blast
  have auto: "autoUpdate t"
    using assms(2,5) by (simp add: autoUpdate_step autoUpdate_run)
  have payload: "\<not> hasPendingUpdate t \<longrightarrow>
      (fetches (step api Tick t) \<noteq> fetches t)
      = (URLSearchParams_toString (form t) \<noteq> URLSearchParams_toString (oldData s))"
    using old tick_submits_iff [OF auto] by simp
  have strings: "(URLSearchParams_toString (form t) \<noteq> URLSearchParams_toString (oldData s))
      = (form t \<noteq> oldData s)"
    if "list_all text_entry (form t)" and "list_all text_entry (oldData s)"
    using text_payload_eqD [OF that] by auto
  have both: "\<not> hasPendingUpdate t \<and> list_all text_entry (form t)
       \<and> list_all text_entry (oldData s) \<longrightarrow>
     (fetches (step api Tick t) \<noteq> fetches t) = (form t \<noteq> oldData s)"
  proof
    assume h: "\<not> hasPendingUpdate t \<and> list_all text_entry (form t)
       \<and> list_all text_entry (oldData s)"
    then have "(fetches (step api Tick t) \<noteq> fetches t)
      = (URLSearchParams_toString (form t) \<noteq> URLSearchParams_toString (oldData s))"
      using payload by simp
    also have "\<dots> = (form t \<noteq> oldData s)"
      using h strings by simp
    finally show "(fetches (step api Tick t) \<noteq> fetches t) = (form t \<noteq> oldData s)" .
  qed
  show ?thesis
    by (intro conjI) (rule tick run old frm payload both)+
qed

text \<open>The example: the title is edited while the first request is pending, the request is
  rejected, and the next tick sends request 2.\<close>

theorem pending_tick_keeps_snapshot_witness:
  "hasPendingUpdate (initPreview example_page)
   \<and> autoUpdate (initPreview example_page)
   \<and> list_all keeps_pending pending_trace
   \<and> oldData (run example_api pending_trace (initPreview example_page)) = form example_page
   \<and> form (run example_api pending_trace (initPreview example_page)) = example_edit
   \<and> \<not> hasPendingUpdate
         (step example_api (Response 1 Rejected)
            (run example_api pending_trace (initPreview example_page)))
   \<and> fetches (step example_api Tick
         (step example_api (Response 1 Rejected)
            (run example_api pending_trace (initPreview example_page))))
       \<noteq> fetches (step example_api (Response 1 Rejected)
            (run example_api pending_trace (initPreview example_page)))"
proof -
  have h: "hasPendingUpdate (initPreview example_page)" "autoUpdate (initPreview example_page)"
    "list_all keeps_pending pending_trace"
    by (simp_all add: panel_defs pending_trace_def)
  have c: "Response 1 Rejected = Load 1 \<or> Response 1 Rejected = Response 1 Rejected"
    by simp
  have e: "\<not> hasPendingUpdate
         (step example_api (Response 1 Rejected)
            (run example_api pending_trace (initPreview example_page)))"
    "form (run example_api pending_trace (initPreview example_page)) = example_edit"
    "oldData (initPreview example_page) = form example_page"
    "URLSearchParams_toString example_edit \<noteq> URLSearchParams_toString (form example_page)"
    by code_simp+
  from pending_tick_keeps_snapshot [where api = example_api, OF h c refl] e
  show ?thesis using h by simp
qed

text \<open>
  C9 as stated fails for a file input. While the first request is pending another file is
  chosen for the upload, between two ticks that leave the snapshot alone; the request is
  rejected and the flag clears. The form differs from the snapshot, but their payloads are
  the same text, and the first tick after the flag has cleared sends nothing: the change
  made while pending is not reported.
\<close>

theorem pending_file_change_not_reported:
  "hasPendingUpdate (initPreview example_page)
   \<and> autoUpdate (initPreview example_page)
   \<and> list_all poll_path [Tick, Input replaced_file, Tick, Response 1 Rejected]
   \<and> oldData (run example_api [Tick, Input replaced_file, Tick] (initPreview example_page))
       = [(''title'', Text ''Hello''), (''upload'', File ''a.png'')]
   \<and> form (run example_api [Tick, Input replaced_file, Tick] (initPreview example_page))
       = [(''title'', Text ''Hello''), (''upload'', File ''b.png'')]
   \<and> hasPendingUpdate (run example_api [Tick, Input replaced_file, Tick] (initPreview example_page))
   \<and> \<not> hasPendingUpdate
         (run example_api [Tick, Input replaced_file, Tick, Response 1 Rejected]
            (initPreview example_page))
   \<and> form (run example_api [Tick, Input replaced_file, Tick, Response 1 Rejected]
         (initPreview example_page))
       \<noteq> oldData (run example_api [Tick, Input replaced_file, Tick, Response 1 Rejected]
           (initPreview example_page))
   \<and> fetches (run example_api [Tick, Input replaced_file, Tick, Response 1 Rejected]
         (initPreview example_page)) = []
   \<and> fetches (step example_api Tick
         (run example_api [Tick, Input replaced_file, Tick, Response 1 Rejected]
            (initPreview example_page))) = []
   \<and> effects (run example_api [Tick, Input replaced_file, Tick, Response 1 Rejected, Tick]
         (initPreview example_page))
       = [Fetch 1 ''/admin/pages/3/edit/preview/''
            [(''title'', Text ''Hello''), (''upload'', File ''a.png'')]]"
  by (simp add: panel_defs)

subsection \<open>A decoded response\<close>

text \<open>
  C6. When the response of a request in flight is decoded, the promise of
  \<^verbatim>\<open>setPreviewData\<close> is fulfilled with \<^verbatim>\<open>is_valid\<close> (and so is that of
  \<^verbatim>\<open>handlePreview\<close>), the error class is on exactly when \<^verbatim>\<open>is_valid\<close> is false,
  the unavailable class exactly when \<^verbatim>\<open>is_available\<close> is false, and whatever the
  verdict a new iframe with the source of the displayed one is inserted and awaits its
  load; the displayed iframe and the pending flag stay as they are until then, and no
  alert is shown.
\<close>

theorem verdict_settles_submission:
  assumes "find (\<lambda>r. rid r = i) (fetches s) = Some r"
    and "s' = step api (Response i (Json is_valid is_available)) s"
  shows "fst (setPreviewData_settled (Json is_valid is_available) x) = Fulfilled is_valid
       \<and> fst (handlePreview_settled (setPreviewData_settled (Json is_valid is_available) x))
           = Some is_valid
       \<and> has_errors s' = (\<not> is_valid)
       \<and> unavailable s' = (\<not> is_available)
       \<and> loading s'
           = loading s @ [\<lparr>node = fresh s,
                            attributes = [(''style'', hidden_style), (''src'', iframe_src (iframe s))],
                            contentWindow = Some \<lparr>scrollY = 0, scrollX = 0\<rparr>\<rparr>]
       \<and> iframe s' = iframe s
       \<and> hasPendingUpdate s' = hasPendingUpdate s
       \<and> filter is_Alert (effects s') = filter is_Alert (effects s)"
  using assms
  by (simp add: settle_def handlePreviewInNewTab_then_def reloadIframe_def
        updateIframeLastScroll_def Let_def split: handler.splits option.splits)

text \<open>The example: the first request is answered with an invalid but available
  verdict.\<close>

theorem verdict_settles_submission_witness:
  "find (\<lambda>r. rid r = 1) (fetches (initPreview example_page)) = Some \<lparr>rid = 1, chain = Unhandled\<rparr>
   \<and> has_errors (step example_api (Response 1 (Json False True)) (initPreview example_page))
   \<and> \<not> unavailable (step example_api (Response 1 (Json False True)) (initPreview example_page))
   \<and> map node (loading (step example_api (Response 1 (Json False True)) (initPreview example_page)))
       = [2]
   \<and> hasPendingUpdate (step example_api (Response 1 (Json False True)) (initPreview example_page))"
proof -
  have h: "find (\<lambda>r. rid r = 1) (fetches (initPreview example_page))
             = Some \<lparr>rid = 1, chain = Unhandled\<rparr>"
    by (simp add: panel_defs)
  have e: "fresh (initPreview example_page) = 2" "loading (initPreview example_page) = []"
    "hasPendingUpdate (initPreview example_page)"
    by (simp_all add: panel_defs)
  from verdict_settles_submission [where api = example_api and is_valid = False
      and is_available = True, OF h refl] e
  show ?thesis using h by simp
qed

subsection \<open>Opening the preview in a new tab\<close>

text \<open>
  C7. A click on the new-tab link, with \<open>w\<close> the window that \<^verbatim>\<open>window.open\<close>
  returns, opens a tab with the empty URL and focuses it before the request is sent, and
  chains the new-tab callback on that request. When the request is answered with a valid
  verdict the tab is navigated to the URL of the link as it is then; when the verdict is
  invalid the editor window is focused and the tab is closed, and nothing navigates it.
\<close>

theorem new_tab_opens_then_submits:
  assumes "find (\<lambda>r. rid r = i) (fetches t) = Some r" and "chain r = HandlePreview (Some w)"
    and "URL_new api (newTabHref t) = Some u"
  shows "effects (step api (NewTabClick (Some w)) s)
           = effects s @ [WindowOpen [] (previewUrl s), TabFocus w,
                          Fetch (fresh s) (previewUrl s) (form s)]
       \<and> fetches (step api (NewTabClick (Some w)) s)
           = fetches s @ [\<lparr>rid = fresh s, chain = HandlePreview (Some w)\<rparr>]
       \<and> effects (step api (Response i (Json True is_available)) t)
           = effects t @ [TabNavigate w (URL_toString api u)]
       \<and> effects (step api (Response i (Json False is_available)) t)
           = effects t @ [WindowFocus, TabClose w]"
  using assms
  by (simp add: handlePreviewInNewTab_def handlePreview_def setPreviewData_def settle_def
        handlePreviewInNewTab_then_def reloadIframe_def updateIframeLastScroll_def Let_def
        split: option.splits)

text \<open>The example: a click that opens window 7 on the example page; its request is 2.\<close>

theorem new_tab_opens_then_submits_witness:
  "find (\<lambda>r. rid r = 2) (fetches (step example_api (NewTabClick (Some 7)) (initPreview example_page)))
     = Some \<lparr>rid = 2, chain = HandlePreview (Some 7)\<rparr>
   \<and> URL_new example_api
         (newTabHref (step example_api (NewTabClick (Some 7)) (initPreview example_page)))
       = Some \<lparr>origin_path = ''https://cms.example/preview/'',
                searchParams = [(''mode'', ''desktop'')], hash = []\<rparr>
   \<and> URL_toString example_api
         \<lparr>origin_path = ''https://cms.example/preview/'',
          searchParams = [(''mode'', ''desktop'')], hash = []\<rparr>
       = ''https://cms.example/preview/?mode=desktop''
   \<and> effects (step example_api (Response 2 (Json True True))
         (step example_api (NewTabClick (Some 7)) (initPreview example_page)))
       = effects (step example_api (NewTabClick (Some 7)) (initPreview example_page))
         @ [TabNavigate 7
              (URL_toString example_api
                 \<lparr>origin_path = ''https://cms.example/preview/'',
                  searchParams = [(''mode'', ''desktop'')], hash = []\<rparr>)]
   \<and> effects (step example_api (Response 2 (Json False True))
         (step example_api (NewTabClick (Some 7)) (initPreview example_page)))
       = effects (step example_api (NewTabClick (Some 7)) (initPreview example_page))
         @ [WindowFocus, TabClose 7]"
proof -
  have h: "find (\<lambda>r. rid r = 2)
             (fetches (step example_api (NewTabClick (Some 7)) (initPreview example_page)))
           = Some \<lparr>rid = 2, chain = HandlePreview (Some 7)\<rparr>"
    by (simp add: panel_defs)
  have c: "chain \<lparr>rid = 2, chain = HandlePreview (Some 7)\<rparr> = HandlePreview (Some 7)"
    by simp
  have u: "URL_new example_api
             (newTabHref (step example_api (NewTabClick (Some 7)) (initPreview example_page)))
           = Some \<lparr>origin_path = ''https://cms.example/preview/'',
                    searchParams = [(''mode'', ''desktop'')], hash = []\<rparr>"
    by (simp add: panel_defs)
  have s: "URL_toString example_api
             \<lparr>origin_path = ''https://cms.example/preview/'',
              searchParams = [(''mode'', ''desktop'')], hash = []\<rparr>
           = ''https://cms.example/preview/?mode=desktop''"
    by (simp add: panel_defs)
  from new_tab_opens_then_submits [where api = example_api and is_available = True
      and s = "initPreview example_page", OF h c u]
  show ?thesis using h u s by blast
qed

text \<open>
  C10. When the request of a new-tab click is rejected, the \<^verbatim>\<open>catch\<close> of
  \<^verbatim>\<open>handlePreview\<close> shows the alert and fulfils its promise with no value. The
  new-tab callback treats no value as it treats \<^verbatim>\<open>false\<close>, the invalid verdict: the
  editor window is focused and the tab is closed, and nothing navigates it.
\<close>

theorem new_tab_network_failure_closes_tab:
  assumes "find (\<lambda>r. rid r = i) (fetches t) = Some r" and "chain r = HandlePreview (Some w)"
  shows "fst (handlePreview_settled (setPreviewData_settled Rejected t)) = None
       \<and> effects (step api (Response i Rejected) t)
           = effects t @ [Alert ''Error while sending preview data.'', WindowFocus, TabClose w]
       \<and> handlePreviewInNewTab_then api w None x = handlePreviewInNewTab_then api w (Some False) x
       \<and> effects (handlePreviewInNewTab_then api w (Some False) x)
           = effects x @ [WindowFocus, TabClose w]"
  using assms
  by (simp add: settle_def handlePreviewInNewTab_then_def)

text \<open>The example: the request of the click that opened window 7 is rejected.\<close>

theorem new_tab_network_failure_closes_tab_witness:
  "find (\<lambda>r. rid r = 2) (fetches (step example_api (NewTabClick (Some 7)) (initPreview example_page)))
     = Some \<lparr>rid = 2, chain = HandlePreview (Some 7)\<rparr>
   \<and> effects (step example_api (Response 2 Rejected)
         (step example_api (NewTabClick (Some 7)) (initPreview example_page)))
       = effects (step example_api (NewTabClick (Some 7)) (initPreview example_page))
         @ [Alert ''Error while sending preview data.'', WindowFocus, TabClose 7]"
proof -
  have h: "find (\<lambda>r. rid r = 2)
             (fetches (step example_api (NewTabClick (Some 7)) (initPreview example_page)))
           = Some \<lparr>rid = 2, chain = HandlePreview (Some 7)\<rparr>"
    by (simp add: panel_defs)
  have c: "chain \<lparr>rid = 2, chain = HandlePreview (Some 7)\<rparr> = HandlePreview (Some 7)"
    by simp
  from new_tab_network_failure_closes_tab [where api = example_api
      and x = "initPreview example_page", OF h c]
  show ?thesis using h by blast
qed

subsection \<open>A change of the preview mode\<close>

lemma searchParams_set_get: "searchParams_get (searchParams_set name v ps) name = Some v"
  by (induction ps) (auto simp: searchParams_get_def)

lemma searchParams_set_once:
  "length (filter (\<lambda>q. fst q = name) (searchParams_set name v ps)) = 1"
  by (induction ps) (auto simp: filter_empty_conv)

lemma searchParams_delete_absent: "name \<notin> fst ` set (searchParams_delete name ps)"
  by (auto simp: searchParams_delete_def)

lemma searchParams_delete_keeps:
  "k \<noteq> name \<Longrightarrow> searchParams_get (searchParams_delete name ps) k = searchParams_get ps k"
  by (induction ps) (auto simp: searchParams_delete_def searchParams_get_def)

lemma getAttribute_setAttribute:
  "getAttribute (setAttribute name v el) k = (if k = name then Some v else getAttribute el k)"
  by (simp add: getAttribute_def setAttribute_def update_conv')

text \<open>
  C8. A change to mode \<open>mode\<close>, on a panel whose iframe has a source that parses as a
  URL: with \<open>url\<close> that URL after \<^verbatim>\<open>searchParams.set('mode', mode)\<close>, the source of
  the iframe becomes \<open>url\<close>, which has exactly one \<^verbatim>\<open>mode\<close> parameter, of value
  \<open>mode\<close>; the link of the new-tab button becomes \<open>url\<close> with every
  \<^verbatim>\<open>in_preview_panel\<close> parameter deleted, the mode kept; and a request with the current
  form is sent through \<^verbatim>\<open>handlePreview\<close>, whatever the pending flag and the stored
  snapshot are.
\<close>

theorem mode_change_rewrites_and_submits:
  assumes "URL_new api (iframe_src (iframe s)) = Some u"
    and "url = u\<lparr>searchParams := searchParams_set ''mode'' mode (searchParams u)\<rparr>"
    and "s' = step api (ModeChange mode) s"
  shows "getAttribute (iframe s') ''src'' = Some (URL_toString api url)
       \<and> searchParams_get (searchParams url) ''mode'' = Some mode
       \<and> length (filter (\<lambda>q. fst q = ''mode'') (searchParams url)) = 1
       \<and> newTabHref s'
           = URL_toString api
               (url\<lparr>searchParams := searchParams_delete ''in_preview_panel'' (searchParams url)\<rparr>)
       \<and> ''in_preview_panel'' \<notin> fst ` set (searchParams_delete ''in_preview_panel'' (searchParams url))
       \<and> searchParams_get (searchParams_delete ''in_preview_panel'' (searchParams url)) ''mode''
           = Some mode
       \<and> effects s' = effects s @ [Fetch (fresh s) (previewUrl s) (form s)]
       \<and> fetches s' = fetches s @ [\<lparr>rid = fresh s, chain = HandlePreview None\<rparr>]
       \<and> hasPendingUpdate s'"
proof -
  have m: "searchParams_get (searchParams url) ''mode'' = Some mode"
    "length (filter (\<lambda>q. fst q = ''mode'') (searchParams url)) = 1"
    using assms(2) by (simp_all add: searchParams_set_get searchParams_set_once)
  have d: "searchParams_get (searchParams_delete ''in_preview_panel'' (searchParams url)) ''mode''
             = Some mode"
    using m(1) by (simp add: searchParams_delete_keeps)
  have "getAttribute (iframe s') ''src'' = Some (URL_toString api url)"
    "newTabHref s'
       = URL_toString api
           (url\<lparr>searchParams := searchParams_delete ''in_preview_panel'' (searchParams url)\<rparr>)"
    "effects s' = effects s @ [Fetch (fresh s) (previewUrl s) (form s)]"
    "fetches s' = fetches s @ [\<lparr>rid = fresh s, chain = HandlePreview None\<rparr>]"
    "hasPendingUpdate s'"
    using assms
    by (simp_all add: handlePreviewModeChange_def handlePreview_def setPreviewData_def
          updateIframeLastScroll_def getAttribute_setAttribute Let_def split: option.splits)
  then show ?thesis
    using m d by (simp add: searchParams_delete_absent)
qed

text \<open>The example: the mode of the example page changes from desktop to mobile while the
  first request is pending.\<close>

theorem mode_change_rewrites_and_submits_witness:
  "URL_new example_api (iframe_src (iframe (initPreview example_page)))
     = Some \<lparr>origin_path = ''https://cms.example/preview/'',
              searchParams = [(''in_preview_panel'', ''true''), (''mode'', ''desktop'')], hash = []\<rparr>
   \<and> hasPendingUpdate (initPreview example_page)
   \<and> getAttribute (iframe (step example_api (ModeChange ''mobile'') (initPreview example_page))) ''src''
       = Some ''https://cms.example/preview/?in_preview_panel=true&mode=mobile''
   \<and> newTabHref (step example_api (ModeChange ''mobile'') (initPreview example_page))
       = ''https://cms.example/preview/?mode=mobile''
   \<and> fetches (step example_api (ModeChange ''mobile'') (initPreview example_page))
       = [\<lparr>rid = 1, chain = Unhandled\<rparr>, \<lparr>rid = 2, chain = HandlePreview None\<rparr>]"
proof -
  have h: "URL_new example_api (iframe_src (iframe (initPreview example_page)))
     = Some \<lparr>origin_path = ''https://cms.example/preview/'',
              searchParams = [(''in_preview_panel'', ''true''), (''mode'', ''desktop'')], hash = []\<rparr>"
    by (simp add: panel_defs)
  have e: "hasPendingUpdate (initPreview example_page)"
    "fetches (initPreview example_page) = [\<lparr>rid = 1, chain = Unhandled\<rparr>]"
    "fresh (initPreview example_page) = 2"
    by (simp_all add: panel_defs)
  have v: "URL_toString example_api
             (\<lparr>origin_path = ''https://cms.example/preview/'',
               searchParams = [(''in_preview_panel'', ''true''), (''mode'', ''desktop'')], hash = []\<rparr>
              \<lparr>searchParams := searchParams_set ''mode'' ''mobile''
                 [(''in_preview_panel'', ''true''), (''mode'', ''desktop'')]\<rparr>)
           = ''https://cms.example/preview/?in_preview_panel=true&mode=mobile''"
    "URL_toString example_api
       (\<lparr>origin_path = ''https://cms.example/preview/'',
         searchParams = searchParams_delete ''in_preview_panel''
           (searchParams_set ''mode'' ''mobile''
              [(''in_preview_panel'', ''true''), (''mode'', ''desktop'')]), hash = []\<rparr>)
     = ''https://cms.example/preview/?mode=mobile''"
    by (simp_all add: panel_defs)
  from mode_change_rewrites_and_submits [where api = example_api and mode = "''mobile''",
      OF h refl refl] e v
  show ?thesis using h by simp
qed

subsection \<open>A rejected request\<close>

text \<open>
  C2, as the code has it. When a request in flight is rejected, the \<^verbatim>\<open>catch\<close> of
  \<^verbatim>\<open>setPreviewData\<close> throws again, the pending flag is cleared, the spinner is
  hidden, the displayed iframe and the iframes awaiting their load are as before (no swap),
  and the error and unavailable classes are as before. What follows depends on the caller:
  with nothing chained, no effect at all; through \<^verbatim>\<open>handlePreview\<close>, one alert,
  and after it the new-tab callback if there is one. A request that the interval callback
  sends has nothing chained on it, and neither has the first request of
  \<^verbatim>\<open>initPreview\<close>.
\<close>

theorem failed_submission_resets_and_rethrows:
  assumes "find (\<lambda>r. rid r = i) (fetches s) = Some r"
    and "s' = step api (Response i Rejected) s"
  shows "fst (setPreviewData_settled Rejected s) = Thrown
       \<and> \<not> hasPendingUpdate s' \<and> spinner_hidden s'
       \<and> iframe s' = iframe s \<and> loading s' = loading s
       \<and> has_errors s' = has_errors s \<and> unavailable s' = unavailable s
       \<and> effects s' = effects s @
           (case chain r of
              Unhandled \<Rightarrow> []
            | HandlePreview None \<Rightarrow> [Alert ''Error while sending preview data.'']
            | HandlePreview (Some w) \<Rightarrow>
                [Alert ''Error while sending preview data.'', WindowFocus, TabClose w])
       \<and> length (filter is_Alert
            (effects (snd (handlePreview_settled (setPreviewData_settled Rejected x)))))
           = Suc (length (filter is_Alert (effects x)))
       \<and> (fetches (interval_callback x) = fetches x
            \<or> fetches (interval_callback x) = fetches x @ [\<lparr>rid = fresh x, chain = Unhandled\<rparr>])
       \<and> map chain (fetches (initPreview page)) = [Unhandled]"
  using assms
  by (simp add: settle_def handlePreviewInNewTab_then_def interval_callback_def hasChanges_def
        setPreviewData_def initPreview_def Let_def split: handler.splits option.splits)

text \<open>The example: the request of a mode change is rejected, and one alert is shown.\<close>

theorem failed_submission_resets_and_rethrows_witness:
  "find (\<lambda>r. rid r = 2) (fetches (step example_api (ModeChange ''mobile'') (initPreview example_page)))
     = Some \<lparr>rid = 2, chain = HandlePreview None\<rparr>
   \<and> \<not> hasPendingUpdate
         (step example_api (Response 2 Rejected)
            (step example_api (ModeChange ''mobile'') (initPreview example_page)))
   \<and> effects (step example_api (Response 2 Rejected)
         (step example_api (ModeChange ''mobile'') (initPreview example_page)))
       = effects (step example_api (ModeChange ''mobile'') (initPreview example_page))
         @ [Alert ''Error while sending preview data.'']"
proof -
  have h: "find (\<lambda>r. rid r = 2)
             (fetches (step example_api (ModeChange ''mobile'') (initPreview example_page)))
           = Some \<lparr>rid = 2, chain = HandlePreview None\<rparr>"
    by (simp add: panel_defs)
  from failed_submission_resets_and_rethrows [where api = example_api
      and x = "initPreview example_page" and page = example_page, OF h refl]
  show ?thesis using h by simp
qed

text \<open>
  C2 as stated fails on the automatic path. In the example the tick sends request 3 with
  nothing chained on it; when that request is rejected the flag is cleared and the spinner
  hidden, but the trace gains nothing: there is no alert.
\<close>

theorem poll_failure_shows_no_alert:
  "fetches (run example_api failing_poll_trace (initPreview example_page))
     = [\<lparr>rid = 3, chain = Unhandled\<rparr>]
   \<and> effects (run example_api failing_poll_trace (initPreview example_page))
       = [Fetch 1 ''/admin/pages/3/edit/preview/'' (form example_page),
          Fetch 3 ''/admin/pages/3/edit/preview/'' example_edit]
   \<and> \<not> hasPendingUpdate
         (step example_api (Response 3 Rejected)
            (run example_api failing_poll_trace (initPreview example_page)))
   \<and> effects (step example_api (Response 3 Rejected)
         (run example_api failing_poll_trace (initPreview example_page)))
       = effects (run example_api failing_poll_trace (initPreview example_page))
   \<and> filter is_Alert
         (effects (step example_api (Response 3 Rejected)
            (run example_api failing_poll_trace (initPreview example_page)))) = []"
  by (simp add: panel_defs failing_poll_trace_def)

subsection \<open>The attributes of the new iframe\<close>

lemma copy_fold:
  "distinct (map fst al) \<Longrightarrow> k \<noteq> ''src'' \<Longrightarrow> map_of al k = Some v \<Longrightarrow>
     getAttribute
       (fold (\<lambda>key el. if fst key = ''src'' then el else setAttribute (fst key) (snd key) el) al el) k
     = Some v"
proof (induction al arbitrary: el rule: rev_induct)
  case Nil
  then show ?case by simp
next
  case (snoc p al)
  show ?case
  proof (cases "fst p = k")
    case True
    with snoc.prems(1) have "k \<notin> fst ` set al" by auto
    then have "map_of al k = None" by (simp add: map_of_eq_None_iff)
    with snoc.prems(3) True have "snd p = v" by (cases p) (simp add: map_add_def)
    with True snoc.prems(2) show ?thesis by (simp add: getAttribute_setAttribute)
  next
    case False
    with snoc.prems(3) have "map_of al k = Some v"
      by (cases p) (auto simp: map_add_def split: option.splits)
    with snoc.IH [of el] snoc.prems(1,2) have
      "getAttribute
         (fold (\<lambda>key el. if fst key = ''src'' then el else setAttribute (fst key) (snd key) el) al el) k
       = Some v"
      by simp
    with False show ?thesis by (simp add: getAttribute_setAttribute)
  qed
qed

lemma copy_fold_src:
  "getAttribute
     (fold (\<lambda>key el. if fst key = ''src'' then el else setAttribute (fst key) (snd key) el) al el) ''src''
   = getAttribute el ''src''"
  by (induction al arbitrary: el) (simp_all add: getAttribute_setAttribute)

lemma getAttribute_scroll: "getAttribute (scroll opts el) k = getAttribute el k"
  by (simp add: getAttribute_def scroll_def)

lemma node_copyAttributes: "node (copyAttributes old el) = node el"
proof -
  have "node (fold (\<lambda>key el. if fst key = ''src'' then el else setAttribute (fst key) (snd key) el) al el)
          = node el" for al
    by (induction al arbitrary: el) (simp_all add: setAttribute_def)
  then show ?thesis by (simp add: copyAttributes_def)
qed

text \<open>
  C3, as the code has it. When the load event of a new iframe fires, every attribute of the
  displayed iframe (whose attribute names are distinct, as in any element) other than
  \<^verbatim>\<open>src\<close> and \<^verbatim>\<open>style\<close> is an attribute of the new iframe, with the same value;
  the new iframe keeps its own \<^verbatim>\<open>src\<close>; its \<^verbatim>\<open>style\<close> attribute is the empty
  string, whatever the old one was; and it is the displayed iframe from then on.
\<close>

theorem swap_copies_attributes_but_src_and_style:
  assumes "find (\<lambda>el. node el = j) (loading s) = Some newIframe"
    and "s' = step api (Load j) s"
    and "distinct (map fst (attributes (iframe s)))"
    and "getAttribute (iframe s) name = Some v"
    and "name \<noteq> ''src''" and "name \<noteq> ''style''"
  shows "getAttribute (iframe s') name = Some v
       \<and> getAttribute (iframe s') ''style'' = Some []
       \<and> getAttribute (iframe s') ''src'' = getAttribute newIframe ''src''
       \<and> node (iframe s') = j"
proof -
  have s': "s' = handleLoad newIframe s"
    using assms(1,2) by simp
  have j: "node newIframe = j"
    using assms(1) by (auto simp: find_Some_iff)
  have "getAttribute (copyAttributes (iframe s) newIframe) name = Some v"
    unfolding copyAttributes_def
    using assms(3,5) assms(4) [unfolded getAttribute_def] by (rule copy_fold)
  moreover have "getAttribute (copyAttributes (iframe s) newIframe) ''src''
      = getAttribute newIframe ''src''"
    unfolding copyAttributes_def by (rule copy_fold_src)
  moreover have "node (iframe (handleLoad newIframe s)) = node newIframe"
    by (simp add: handleLoad_def Let_def setAttribute_def scroll_def node_copyAttributes)
  ultimately show ?thesis
    using assms(6) j unfolding s'
    by (simp add: handleLoad_def Let_def getAttribute_setAttribute getAttribute_scroll)
qed

text \<open>The example: the swap after the first response on the example page keeps the
  class of the iframe.\<close>

theorem swap_copies_attributes_but_src_and_style_witness:
  "find (\<lambda>el. node el = 2)
     (loading (step example_api (Response 1 (Json True True)) (initPreview example_page)))
     = Some \<lparr>node = 2,
              attributes = [(''style'', hidden_style),
                            (''src'', ''https://cms.example/preview/?in_preview_panel=true&mode=desktop'')],
              contentWindow = Some \<lparr>scrollY = 0, scrollX = 0\<rparr>\<rparr>
   \<and> distinct (map fst (attributes
         (iframe (step example_api (Response 1 (Json True True)) (initPreview example_page)))))
   \<and> getAttribute
         (iframe (step example_api (Response 1 (Json True True)) (initPreview example_page)))
         ''class'' = Some ''preview-panel__iframe''
   \<and> getAttribute
         (iframe (step example_api (Load 2)
            (step example_api (Response 1 (Json True True)) (initPreview example_page))))
         ''class'' = Some ''preview-panel__iframe''
   \<and> getAttribute
         (iframe (step example_api (Load 2)
            (step example_api (Response 1 (Json True True)) (initPreview example_page))))
         ''style'' = Some []"
proof -
  have h: "find (\<lambda>el. node el = 2)
     (loading (step example_api (Response 1 (Json True True)) (initPreview example_page)))
     = Some \<lparr>node = 2,
              attributes = [(''style'', hidden_style),
                            (''src'', ''https://cms.example/preview/?in_preview_panel=true&mode=desktop'')],
              contentWindow = Some \<lparr>scrollY = 0, scrollX = 0\<rparr>\<rparr>"
    by (simp add: panel_defs)
  have d: "distinct (map fst (attributes
         (iframe (step example_api (Response 1 (Json True True)) (initPreview example_page)))))"
    by (simp add: panel_defs)
  have g: "getAttribute
         (iframe (step example_api (Response 1 (Json True True)) (initPreview example_page)))
         ''class'' = Some ''preview-panel__iframe''"
    by (simp add: panel_defs)
  have n: "''class'' \<noteq> ''src''" "''class'' \<noteq> ''style''"
    by simp_all
  from swap_copies_attributes_but_src_and_style [where api = example_api, OF h refl d g n]
  show ?thesis using h d g by blast
qed

text \<open>
  C3 as stated fails for the \<^verbatim>\<open>style\<close> attribute. The iframe of the page has the
  inline style \<^verbatim>\<open>border: 0px;\<close>; after the swap the displayed iframe is the new one,
  and its \<^verbatim>\<open>style\<close> attribute is the empty string.
\<close>

theorem swap_resets_style_attribute:
  "getAttribute
     (iframe (run example_api [Response 1 (Json True True)] (initPreview styled_page)))
     ''style'' = Some ''border: 0px;''
   \<and> node (iframe (run example_api [Response 1 (Json True True)] (initPreview styled_page))) = 0
   \<and> getAttribute
       (iframe (run example_api [Response 1 (Json True True), Load 2] (initPreview styled_page)))
       ''style'' = Some []
   \<and> node (iframe (run example_api [Response 1 (Json True True), Load 2] (initPreview styled_page)))
       = 2"
  by (simp add: panel_defs)

subsection \<open>The states the page can reach\<close>

lemma coherent_init:
  "distinct (map fst (attributes (iframe page))) \<Longrightarrow> coherent (initPreview page)"
  by (simp add: coherent_def initPreview_def setPreviewData_def)

lemma distinct_setAttribute:
  "distinct (map fst (attributes el)) \<Longrightarrow> distinct (map fst (attributes (setAttribute name v el)))"
  by (simp add: setAttribute_def distinct_update)

lemma distinct_copyAttributes:
  "distinct (map fst (attributes el)) \<Longrightarrow> distinct (map fst (attributes (copyAttributes old el)))"
proof -
  have "distinct (map fst (attributes el)) \<Longrightarrow>
    distinct (map fst (attributes
      (fold (\<lambda>key el. if fst key = ''src'' then el else setAttribute (fst key) (snd key) el) al el)))" for al
    by (induction al arbitrary: el) (simp_all add: distinct_setAttribute)
  then show "distinct (map fst (attributes el)) \<Longrightarrow> distinct (map fst (attributes (copyAttributes old el)))"
    by (simp add: copyAttributes_def)
qed

lemma coherent_setPreviewData: "coherent s \<Longrightarrow> coherent (setPreviewData h s)"
  by (auto simp: coherent_def setPreviewData_def list_all_iff less_Suc_eq)

lemma coherent_reloadIframe: "coherent s \<Longrightarrow> coherent (reloadIframe s)"
  by (auto simp: coherent_def reloadIframe_def Let_def list_all_iff less_Suc_eq)

lemma coherent_flags:
  "coherent (s\<lparr>has_errors := a\<rparr>) = coherent s"
  "coherent (s\<lparr>unavailable := b\<rparr>) = coherent s"
  "coherent (s\<lparr>spinner_hidden := c\<rparr>) = coherent s"
  "coherent (s\<lparr>hasPendingUpdate := d\<rparr>) = coherent s"
  "coherent (s\<lparr>effects := e\<rparr>) = coherent s"
  "coherent (s\<lparr>newTabHref := f\<rparr>) = coherent s"
  "coherent (s\<lparr>form := g\<rparr>) = coherent s"
  "coherent (s\<lparr>oldData := h\<rparr>) = coherent s"
  "coherent (s\<lparr>iframeLastScroll := i\<rparr>) = coherent s"
  by (simp_all add: coherent_def)

lemma coherent_updateIframeLastScroll: "coherent (updateIframeLastScroll s) = coherent s"
  by (simp add: updateIframeLastScroll_def coherent_flags split: option.splits)

lemma coherent_settle: "coherent s \<Longrightarrow> coherent (settle api h out s)"
  by (cases out)
     (auto simp: settle_def handlePreviewInNewTab_then_def Let_def coherent_flags
        coherent_reloadIframe coherent_updateIframeLastScroll split: handler.splits option.splits)

lemma coherent_drop_request:
  "coherent s \<Longrightarrow> coherent (s\<lparr>fetches := filter (\<lambda>r. rid r \<noteq> i) (fetches s)\<rparr>)"
  by (auto simp: coherent_def list_all_iff distinct_map_filter)

lemma coherent_handleLoad:
  assumes "coherent s" and "find (\<lambda>el. node el = j) (loading s) = Some newIframe"
  shows "coherent (handleLoad newIframe s)"
proof -
  from assms(2) have m: "newIframe \<in> set (loading s)" and j: "node newIframe = j"
    by (auto simp: find_Some_iff)
  from assms(1) m have n: "node newIframe < fresh s" "distinct (map fst (attributes newIframe))"
    by (auto simp: coherent_def list_all_iff)
  have d: "distinct (map fst (attributes (setAttribute ''style'' [] (scroll (iframeLastScroll s)
      (copyAttributes (iframe s) newIframe)))))"
    using n(2) by (simp add: distinct_setAttribute scroll_def distinct_copyAttributes)
  have k: "node (setAttribute ''style'' [] (scroll (iframeLastScroll s)
      (copyAttributes (iframe s) newIframe))) = node newIframe"
    by (simp add: setAttribute_def scroll_def node_copyAttributes)
  show ?thesis
    using assms(1) n d k
    by (auto simp: coherent_def handleLoad_def Let_def list_all_iff distinct_map_filter)
qed

lemma coherent_step: "coherent s \<Longrightarrow> coherent (step api e s)"
proof (cases e)
  case Tick
  assume "coherent s"
  then show ?thesis using Tick
    by (simp add: interval_callback_def hasChanges_def Let_def coherent_setPreviewData coherent_flags)
next
  case (Input d)
  assume "coherent s"
  then show ?thesis using Input by (simp add: coherent_flags)
next
  case (FrameScroll y x)
  assume "coherent s"
  then show ?thesis using FrameScroll by (simp add: coherent_def split: option.splits)
next
  case (Response i out)
  assume "coherent s"
  then show ?thesis using Response
    by (simp add: coherent_settle coherent_drop_request split: option.splits)
next
  case (Load i)
  assume "coherent s"
  then show ?thesis using Load by (simp add: coherent_handleLoad split: option.splits)
next
  case (ModeChange m)
  assume c: "coherent s"
  have "coherent (x\<lparr>iframe := setAttribute ''src'' v (iframe x)\<rparr>)" if "coherent x" for x v
    using that by (simp add: coherent_def setAttribute_def distinct_update)
  with c show ?thesis using ModeChange
    by (simp add: handlePreviewModeChange_def handlePreview_def Let_def coherent_setPreviewData
          coherent_flags coherent_updateIframeLastScroll split: option.splits)
next
  case (NewTabClick w)
  assume "coherent s"
  then show ?thesis using NewTabClick
    by (simp add: handlePreviewInNewTab_def handlePreview_def Let_def coherent_setPreviewData
          coherent_flags split: option.splits)
qed

lemma coherent_run: "coherent s \<Longrightarrow> coherent (run api evs s)"
  by (induction evs arbitrary: s) (simp_all add: coherent_step)

text \<open>So on every run from a page whose iframe has no two attributes of one name, the
  displayed iframe has none either, and a response or a load names one request or
  iframe.\<close>

lemma reachable_coherent:
  "distinct (map fst (attributes (iframe page))) \<Longrightarrow> coherent (run api evs (initPreview page))"
  by (simp add: coherent_init coherent_run)

subsection \<open>The comparison of snapshots\<close>

text \<open>
  C4, as the code has it. \<^verbatim>\<open>hasChanges\<close> returns whether the payload of the form
  differs from the payload of the stored snapshot, and stores the form as the snapshot
  whatever it returns. So after a change to \<open>d\<close> that alters the payload, the next call
  returns true and leaves \<open>d\<close> as the snapshot, and a call after that, with the form
  untouched, returns false and changes nothing, as does every later one; equal payloads
  compare as unchanged. Between forms whose values are all strings every change alters the
  payload.
\<close>

theorem hasChanges_reports_payload_change_once:
  assumes "URLSearchParams_toString d \<noteq> URLSearchParams_toString (oldData s)"
    and "s1 = snd (hasChanges (s\<lparr>form := d\<rparr>))"
  shows "fst (hasChanges (s\<lparr>form := d\<rparr>))
       \<and> oldData s1 = d
       \<and> hasChanges s1 = (False, s1)
       \<and> oldData (snd (hasChanges x)) = form x
       \<and> fst (hasChanges x)
           = (URLSearchParams_toString (form x) \<noteq> URLSearchParams_toString (oldData x))
       \<and> (list_all text_entry a \<and> list_all text_entry b \<longrightarrow>
            (URLSearchParams_toString a = URLSearchParams_toString b) = (a = b))"
proof -
  have first: "fst (hasChanges (s\<lparr>form := d\<rparr>))"
    using assms(1) by (simp add: hasChanges_def Let_def)
  have s1: "s1 = s\<lparr>form := d, oldData := d\<rparr>"
    using assms(2) by (simp add: hasChanges_def Let_def)
  have later: "hasChanges s1 = (False, s1)"
    unfolding s1 by (simp add: hasChanges_def Let_def)
  have adv: "oldData (snd (hasChanges x)) = form x"
    by (simp add: hasChanges_def Let_def)
  have res: "fst (hasChanges x)
      = (URLSearchParams_toString (form x) \<noteq> URLSearchParams_toString (oldData x))"
    by (auto simp: hasChanges_def Let_def)
  have inj: "list_all text_entry a \<and> list_all text_entry b \<longrightarrow>
            (URLSearchParams_toString a = URLSearchParams_toString b) = (a = b)"
    using text_payload_eqD by blast
  from first s1 later adv res inj show ?thesis by simp
qed

text \<open>The example: the title of the example page is edited.\<close>

theorem hasChanges_reports_payload_change_once_witness:
  "URLSearchParams_toString example_edit \<noteq> URLSearchParams_toString (oldData (initPreview example_page))
   \<and> fst (hasChanges ((initPreview example_page)\<lparr>form := example_edit\<rparr>))
   \<and> oldData (snd (hasChanges ((initPreview example_page)\<lparr>form := example_edit\<rparr>))) = example_edit
   \<and> hasChanges (snd (hasChanges ((initPreview example_page)\<lparr>form := example_edit\<rparr>)))
       = (False, snd (hasChanges ((initPreview example_page)\<lparr>form := example_edit\<rparr>)))"
proof -
  have h: "URLSearchParams_toString example_edit
             \<noteq> URLSearchParams_toString (oldData (initPreview example_page))"
    by (simp add: panel_defs)
  from hasChanges_reports_payload_change_once [OF h refl]
  show ?thesis using h by blast
qed

text \<open>
  C4 as stated fails for a file input. The snapshot is the form of the example page; then
  another file is chosen for the upload, a change of one field value; the next call of
  \<^verbatim>\<open>hasChanges\<close> returns false, since both files are \<^verbatim>\<open>[object File]\<close> in the
  payload.
\<close>

theorem hasChanges_misses_replaced_file:
  "oldData (initPreview example_page) = form (initPreview example_page)
   \<and> form (initPreview example_page) = [(''title'', Text ''Hello''), (''upload'', File ''a.png'')]
   \<and> replaced_file = [(''title'', Text ''Hello''), (''upload'', File ''b.png'')]
   \<and> replaced_file \<noteq> form (initPreview example_page)
   \<and> URLSearchParams_toString (form (initPreview example_page))
       = ''title=Hello&upload=%5Bobject+File%5D''
   \<and> URLSearchParams_toString replaced_file = ''title=Hello&upload=%5Bobject+File%5D''
   \<and> \<not> fst (hasChanges ((initPreview example_page)\<lparr>form := replaced_file\<rparr>))"
proof -
  have a: "URLSearchParams_toString (form (initPreview example_page))
             = ''title=Hello&upload=%5Bobject+File%5D''"
    by code_simp
  have b: "URLSearchParams_toString replaced_file = ''title=Hello&upload=%5Bobject+File%5D''"
    by code_simp
  have c: "oldData (initPreview example_page) = form (initPreview example_page)"
    "form (initPreview example_page) = [(''title'', Text ''Hello''), (''upload'', File ''a.png'')]"
    "replaced_file = [(''title'', Text ''Hello''), (''upload'', File ''b.png'')]"
    "replaced_file \<noteq> form (initPreview example_page)"
    "\<not> fst (hasChanges ((initPreview example_page)\<lparr>form := replaced_file\<rparr>))"
    by (simp_all add: panel_defs)
  from a b c show ?thesis by blast
qed

subsection \<open>The scroll position of the new iframe\<close>

lemma no_capture_step: "no_capture e \<Longrightarrow> iframeLastScroll (step api e s) = iframeLastScroll s"
proof (cases e)
  case Tick
  then show ?thesis
    by (simp add: interval_callback_def hasChanges_def setPreviewData_def Let_def)
next
  case (Response i out)
  assume "no_capture e"
  with Response have "out = Rejected" by (cases out) simp_all
  with Response show ?thesis
    by (simp add: settle_Rejected split: option.splits)
next
  case (NewTabClick w)
  then show ?thesis
    by (simp add: newTab_unchanged)
qed (simp_all add: handleLoad_def Let_def split: option.splits)

lemma no_capture_run:
  "list_all no_capture evs \<Longrightarrow> iframeLastScroll (run api evs s) = iframeLastScroll s"
  by (induction evs arbitrary: s) (simp_all add: no_capture_step)

lemma iframeLastScroll_settle_Json:
  "contentWindow (iframe s) = Some w \<Longrightarrow>
     iframeLastScroll (settle api h (Json v a) s) = \<lparr>opt_top = scrollY w, opt_left = scrollX w\<rparr>"
  by (simp add: settle_def handlePreviewInNewTab_then_def reloadIframe_def updateIframeLastScroll_def
        Let_def split: handler.splits option.splits)

lemma handleLoad_scroll:
  "contentWindow (iframe (handleLoad newIframe s))
     = Some \<lparr>scrollY = opt_top (iframeLastScroll s), scrollX = opt_left (iframeLastScroll s)\<rparr>"
  by (simp add: handleLoad_def Let_def setAttribute_def scroll_def)

text \<open>
  C5, as the code has it. \<^verbatim>\<open>handleLoad\<close> scrolls the new iframe to what
  \<^verbatim>\<open>iframeLastScroll\<close> holds when the load event fires. When a response is decoded
  while the displayed iframe has a content window \<open>w\<close>, the offsets of \<open>w\<close> are stored
  there; if no mode change and no other decoded response comes before the load, the new
  iframe is scrolled to those offsets, however the displayed iframe is scrolled in
  between.
\<close>

theorem swap_applies_last_captured_scroll:
  assumes "contentWindow (iframe s) = Some w"
    and "find (\<lambda>r. rid r = i) (fetches s) = Some r"
    and "s1 = step api (Response i (Json is_valid is_available)) s"
    and "list_all no_capture evs"
    and "find (\<lambda>el. node el = j) (loading (run api evs s1)) = Some newIframe"
    and "s3 = step api (Load j) (run api evs s1)"
  shows "iframeLastScroll s1 = \<lparr>opt_top = scrollY w, opt_left = scrollX w\<rparr>
       \<and> contentWindow (iframe s3) = Some \<lparr>scrollY = scrollY w, scrollX = scrollX w\<rparr>
       \<and> contentWindow (iframe (handleLoad el x))
           = Some \<lparr>scrollY = opt_top (iframeLastScroll x), scrollX = opt_left (iframeLastScroll x)\<rparr>"
proof -
  have c: "iframeLastScroll s1 = \<lparr>opt_top = scrollY w, opt_left = scrollX w\<rparr>"
    using assms(1,2,3) by (simp add: iframeLastScroll_settle_Json)
  have "iframeLastScroll (run api evs s1) = iframeLastScroll s1"
    using assms(4) by (rule no_capture_run)
  with c assms(5,6) show ?thesis
    by (simp add: handleLoad_scroll)
qed

text \<open>The example: the preview is at 40 when the first response is decoded and is
  scrolled on to 90 while the new iframe loads; the new iframe is scrolled to 40.\<close>

theorem swap_applies_last_captured_scroll_witness:
  "contentWindow (iframe (step example_api (FrameScroll 40 0) (initPreview example_page)))
     = Some \<lparr>scrollY = 40, scrollX = 0\<rparr>
   \<and> find (\<lambda>r. rid r = 1) (fetches (step example_api (FrameScroll 40 0) (initPreview example_page)))
       = Some \<lparr>rid = 1, chain = Unhandled\<rparr>
   \<and> list_all no_capture kept_scroll_trace
   \<and> map node (loading (run example_api kept_scroll_trace
         (step example_api (Response 1 (Json True True))
            (step example_api (FrameScroll 40 0) (initPreview example_page))))) = [2]
   \<and> contentWindow (iframe (run example_api kept_scroll_trace
         (step example_api (Response 1 (Json True True))
            (step example_api (FrameScroll 40 0) (initPreview example_page)))))
       = Some \<lparr>scrollY = 90, scrollX = 5\<rparr>
   \<and> contentWindow (iframe (step example_api (Load 2)
         (run example_api kept_scroll_trace
            (step example_api (Response 1 (Json True True))
               (step example_api (FrameScroll 40 0) (initPreview example_page))))))
       = Some \<lparr>scrollY = 40, scrollX = 0\<rparr>"
proof -
  have w: "contentWindow (iframe (step example_api (FrameScroll 40 0) (initPreview example_page)))
     = Some \<lparr>scrollY = 40, scrollX = 0\<rparr>"
    by (simp add: panel_defs)
  have r: "find (\<lambda>r. rid r = 1)
             (fetches (step example_api (FrameScroll 40 0) (initPreview example_page)))
           = Some \<lparr>rid = 1, chain = Unhandled\<rparr>"
    by (simp add: panel_defs)
  have n: "list_all no_capture kept_scroll_trace"
    by (simp add: kept_scroll_trace_def)
  have l: "find (\<lambda>el. node el = 2)
             (loading (run example_api kept_scroll_trace
               (step example_api (Response 1 (Json True True))
                  (step example_api (FrameScroll 40 0) (initPreview example_page)))))
           = Some \<lparr>node = 2,
                attributes = [(''style'', hidden_style),
                  (''src'', ''https://cms.example/preview/?in_preview_panel=true&mode=desktop'')],
                contentWindow = Some \<lparr>scrollY = 0, scrollX = 0\<rparr>\<rparr>"
    by (simp add: panel_defs kept_scroll_trace_def)
  have e: "map node (loading (run example_api kept_scroll_trace
         (step example_api (Response 1 (Json True True))
            (step example_api (FrameScroll 40 0) (initPreview example_page))))) = [2]"
    "contentWindow (iframe (run example_api kept_scroll_trace
         (step example_api (Response 1 (Json True True))
            (step example_api (FrameScroll 40 0) (initPreview example_page)))))
       = Some \<lparr>scrollY = 90, scrollX = 5\<rparr>"
    by (simp_all add: panel_defs kept_scroll_trace_def)
  have v: "scrollY \<lparr>scrollY = 40, scrollX = 0\<rparr> = 40" "scrollX \<lparr>scrollY = 40, scrollX = 0\<rparr> = 0"
    by simp_all
  from swap_applies_last_captured_scroll [where api = example_api, OF w r refl n l refl]
  have "contentWindow (iframe (step example_api (Load 2)
         (run example_api kept_scroll_trace
            (step example_api (Response 1 (Json True True))
               (step example_api (FrameScroll 40 0) (initPreview example_page))))))
       = Some \<lparr>scrollY = scrollY \<lparr>scrollY = 40, scrollX = 0\<rparr>,
               scrollX = scrollX \<lparr>scrollY = 40, scrollX = 0\<rparr>\<rparr>"
    by blast
  then show ?thesis using w r n e unfolding v by blast
qed

text \<open>
  C5 as stated fails when a mode change comes between the response and the load. The
  preview is at 40 when the first response is decoded, and 40 is stored; it is scrolled on
  to 100 and the mode is changed, which stores 100; the new iframe of the first response
  loads after that and is scrolled to 100.
\<close>

theorem mode_change_overwrites_captured_scroll:
  "contentWindow (iframe (run example_api (take 1 overwritten_scroll_trace) (initPreview example_page)))
     = Some \<lparr>scrollY = 40, scrollX = 0\<rparr>
   \<and> iframeLastScroll (run example_api (take 2 overwritten_scroll_trace) (initPreview example_page))
       = \<lparr>opt_top = 40, opt_left = 0\<rparr>
   \<and> map node (loading (run example_api (take 2 overwritten_scroll_trace) (initPreview example_page)))
       = [2]
   \<and> node (iframe (run example_api overwritten_scroll_trace (initPreview example_page))) = 2
   \<and> contentWindow (iframe (run example_api overwritten_scroll_trace (initPreview example_page)))
       = Some \<lparr>scrollY = 100, scrollX = 0\<rparr>"
  by (simp add: panel_defs overwritten_scroll_trace_def)

end
